theory Spec2Isabelle
  imports Main "HOL-Library.Sublist"
begin

section \<open>PyExifTool: a client of one persistent exiftool subprocess\<close>

text \<open>
  A shallow embedding of \<^verbatim>\<open>exiftool.py\<close>. Python \<^verbatim>\<open>bytes\<close> and \<^verbatim>\<open>str\<close> are both
  character lists; a token of a command batch records which of the two it is.
  Exceptions are values of \<open>error\<close>; a call that never returns (the read loop waiting on
  a pipe that delivers nothing more) has the result \<open>Blocked\<close>. The finalizer \<^verbatim>\<open>__del__\<close>
  runs at a time the program does not fix and is left out.
\<close>

subsection \<open>Bytes\<close>

type_synonym bytes = string

definition nl :: bytes where
  "nl = [CHR 0x0A]"

text \<open>\<^verbatim>\<open>sentinel = b"{ready}"\<close> and \<^verbatim>\<open>block_size = 4096\<close>.\<close>

definition sentinel :: bytes where
  "sentinel = ''{ready}''"

definition block_size :: nat where
  "block_size = 4096"

text \<open>The whitespace of \<^verbatim>\<open>bytes.strip()\<close>: space, tab, newline, vertical tab, form feed,
  carriage return.\<close>

definition is_space :: "char \<Rightarrow> bool" where
  "is_space c = (c = CHR 0x20 \<or> c = CHR 0x09 \<or> c = CHR 0x0A \<or> c = CHR 0x0B
                 \<or> c = CHR 0x0C \<or> c = CHR 0x0D)"

definition lstrip :: "bytes \<Rightarrow> bytes" where
  "lstrip xs = dropWhile is_space xs"

definition rstrip :: "bytes \<Rightarrow> bytes" where
  "rstrip xs = rev (dropWhile is_space (rev xs))"

definition strip :: "bytes \<Rightarrow> bytes" where
  "strip xs = rstrip (lstrip xs)"

text \<open>\<^verbatim>\<open>xs[-n:]\<close> and \<^verbatim>\<open>xs[:-n]\<close> for a positive \<open>n\<close>: a sequence shorter than \<open>n\<close> gives
  the whole sequence and the empty one, which is what truncating subtraction computes.\<close>

definition last_n :: "nat \<Rightarrow> bytes \<Rightarrow> bytes" where
  "last_n n xs = drop (length xs - n) xs"

definition drop_last :: "nat \<Rightarrow> bytes \<Rightarrow> bytes" where
  "drop_last n xs = take (length xs - n) xs"

definition endswith :: "bytes \<Rightarrow> bytes \<Rightarrow> bool" where
  "endswith xs s = suffix s xs"

text \<open>\<^verbatim>\<open>sep.join(parts)\<close>.\<close>

fun join :: "bytes \<Rightarrow> bytes list \<Rightarrow> bytes" where
  "join sep [] = []"
| "join sep [x] = x"
| "join sep (x # y # ys) = x @ sep @ join sep (y # ys)"

subsection \<open>Values, errors, results\<close>

text \<open>What \<^verbatim>\<open>json.loads\<close> produces; \<open>PNone\<close> is Python's \<^verbatim>\<open>None\<close>.\<close>

datatype pyvalue =
    PNone
  | PBool bool
  | PInt int
  | PStr string
  | PList "pyvalue list"
  | PDict "(string \<times> pyvalue) list"

type_synonym record_dict = "string \<rightharpoonup> pyvalue"

datatype error =
    ValueError
  | AttributeError
  | KeyError
  | RuntimeError
  | StopIteration
  | OSError
  | BrokenPipeError
  | UnicodeEncodeError
  | JSONDecodeError

datatype 'a result = Return 'a | Raise error | Blocked

datatype token = Bytes bytes | Text string

subsection \<open>The environment\<close>

text \<open>
  What the module calls but does not define: the filesystem codec behind \<^verbatim>\<open>fsencode\<close>
  (\<^verbatim>\<open>filename.encode(encoding, errors)\<close>, \<open>None\<close> where it raises
  \<^verbatim>\<open>UnicodeEncodeError\<close>), \<^verbatim>\<open>json.loads\<close> after
  \<^verbatim>\<open>.decode("utf-8")\<close> (either may raise; in JSON mode the tool prints an array of objects,
  so a decoded response is a list of dictionaries), \<^verbatim>\<open>os.path.isfile\<close>, whether
  \<^verbatim>\<open>subprocess.Popen\<close> can launch an executable, and the tool itself: the chunks of output
  it makes available for reading after a batch, given all it has read before.
\<close>

record env =
  encode :: "string \<Rightarrow> bytes option"
  json_loads :: "bytes \<Rightarrow> error + record_dict list"
  isfile :: "token \<Rightarrow> bool"
  popen_ok :: "string \<Rightarrow> bool"
  tool :: "bytes \<Rightarrow> bytes \<Rightarrow> bytes list"

subsection \<open>Sessions and the object store\<close>

text \<open>
  A \<^verbatim>\<open>Popen\<close> object: the process identity, every byte written to its standard input,
  and the chunks of output waiting in its standard output pipe.
\<close>

record process =
  pid :: nat
  stdin :: bytes
  stdout :: "bytes list"

text \<open>
  An empty chunk in the output pipe is its end of file: the subprocess has closed its side,
  which it does by exiting, of its own accord or killed. Writing to the standard input of
  a subprocess that has exited raises \<^verbatim>\<open>BrokenPipeError\<close> when the write is flushed.
\<close>

definition gone :: "process \<Rightarrow> bool" where
  "gone p = ([] \<in> set (stdout p))"

text \<open>An \<^verbatim>\<open>ExifTool\<close> instance. The attribute \<^verbatim>\<open>_process\<close> exists between a successful
  \<^verbatim>\<open>start\<close> and the \<^verbatim>\<open>del\<close> in \<^verbatim>\<open>terminate\<close>.\<close>

record exiftool =
  executable :: string
  running :: bool
  process :: "process option"

text \<open>
  Views refer to a session, they do not copy it: instances live in a store and are named
  by their address. The world also counts the subprocesses launched so far, keeps the
  warnings issued, and keeps the processes that have exited with all they were sent.
\<close>

record world =
  heap :: "nat \<Rightarrow> exiftool"
  next_ref :: nat
  next_pid :: nat
  warnings :: "string list"
  exited :: "process list"

definition default_executable :: string where
  "default_executable = ''exiftool''"

definition set_session :: "nat \<Rightarrow> exiftool \<Rightarrow> world \<Rightarrow> world" where
  "set_session self s w = w\<lparr>heap := (heap w)(self := s)\<rparr>"

text \<open>\<^verbatim>\<open>ExifTool.__init__\<close>: a new instance, not running.\<close>

definition ExifTool_init :: "string option \<Rightarrow> world \<Rightarrow> nat \<times> world" where
  "ExifTool_init exe w =
     (next_ref w,
      (set_session (next_ref w)
         \<lparr>executable = (case exe of None \<Rightarrow> default_executable | Some e \<Rightarrow> e),
          running = False, process = None\<rparr> w)
        \<lparr>next_ref := Suc (next_ref w)\<rparr>)"

text \<open>\<^verbatim>\<open>ExifTool.start\<close>. \<^verbatim>\<open>warnings.warn\<close> records the warning and returns, as it does under
  the default warning filters; \<^verbatim>\<open>Popen\<close> raises \<^verbatim>\<open>OSError\<close> when the executable cannot be
  launched.\<close>

definition start :: "env \<Rightarrow> nat \<Rightarrow> world \<Rightarrow> unit result \<times> world" where
  "start E self w =
     (let s = heap w self in
      if running s then
        (Return (), w\<lparr>warnings := warnings w @ [''ExifTool already running; doing nothing.'']\<rparr>)
      else if \<not> popen_ok E (executable s) then (Raise OSError, w)
      else
        (Return (),
         (set_session self
            (s\<lparr>process := Some \<lparr>pid = next_pid w, stdin = [], stdout = []\<rparr>,
               running := True\<rparr>) w)
           \<lparr>next_pid := Suc (next_pid w)\<rparr>))"

text \<open>\<^verbatim>\<open>ExifTool.terminate\<close>. With a subprocess that has exited already, flushing the directive
  raises, before the handle is released and the flag cleared. Otherwise the tool exits on
  the directive; \<^verbatim>\<open>communicate()\<close> drains what is left in the pipe and waits for the exit.\<close>

definition terminate :: "env \<Rightarrow> nat \<Rightarrow> world \<Rightarrow> unit result \<times> world" where
  "terminate E self w =
     (let s = heap w self in
      if \<not> running s then (Return (), w)
      else
        (case process s of
           None \<Rightarrow> (Raise AttributeError, w)
         | Some p \<Rightarrow>
             if gone p then (Raise BrokenPipeError, w)
             else
               (Return (),
                (set_session self (s\<lparr>process := None, running := False\<rparr>) w)
                  \<lparr>exited := exited w
                     @ [p\<lparr>stdin := stdin p @ ''-stay_open'' @ nl @ ''False'' @ nl,
                          stdout := []\<rparr>]\<rparr>)))"

text \<open>
  \<^verbatim>\<open>with session as et: body\<close>: \<^verbatim>\<open>__enter__\<close> is \<^verbatim>\<open>start\<close>, and an error there skips both
  body and exit; \<^verbatim>\<open>__exit__\<close> is \<^verbatim>\<open>terminate\<close>, run after the body whether it returned or
  raised, and it returns nothing, so an error of the body goes on to the caller.
\<close>

definition with_session ::
  "env \<Rightarrow> nat \<Rightarrow> (world \<Rightarrow> 'a result \<times> world) \<Rightarrow> world \<Rightarrow> 'a result \<times> world" where
  "with_session E self body w =
     (case start E self w of
        (Raise e, w1) \<Rightarrow> (Raise e, w1)
      | (Blocked, w1) \<Rightarrow> (Blocked, w1)
      | (Return u, w1) \<Rightarrow>
          (case body w1 of
             (Blocked, w2) \<Rightarrow> (Blocked, w2)
           | (Return x, w2) \<Rightarrow>
               (case terminate E self w2 of
                  (Return u', w3) \<Rightarrow> (Return x, w3)
                | (Raise e', w3) \<Rightarrow> (Raise e', w3)
                | (Blocked, w3) \<Rightarrow> (Blocked, w3))
           | (Raise e, w2) \<Rightarrow>
               (case terminate E self w2 of
                  (Return u', w3) \<Rightarrow> (Raise e, w3)
                | (Raise e', w3) \<Rightarrow> (Raise e', w3)
                | (Blocked, w3) \<Rightarrow> (Blocked, w3))))"

subsection \<open>The read loop and \<^verbatim>\<open>execute\<close>\<close>

text \<open>
  \<^verbatim>\<open>os.read(fd, n)\<close> on the pipe: at most \<open>n\<close> bytes of the first chunk waiting, the rest
  of that chunk staying in the pipe. With nothing waiting the call does not return.
\<close>

fun os_read :: "nat \<Rightarrow> bytes list \<Rightarrow> (bytes \<times> bytes list) option" where
  "os_read n [] = None"
| "os_read n (c # cs) =
     (if length c \<le> n then Some (c, cs) else Some (take n c, drop n c # cs))"

text \<open>The loop condition \<^verbatim>\<open>output[-32:].strip().endswith(sentinel)\<close>.\<close>

definition at_sentinel :: "bytes \<Rightarrow> bool" where
  "at_sentinel output = endswith (strip (last_n 32 output)) sentinel"

text \<open>
  \<^verbatim>\<open>while not output[-32:].strip().endswith(sentinel): output += os.read(fd, block_size)\<close>.
  The result is the accumulated output and what is left in the pipe; \<open>None\<close> when the loop
  never ends: the pipe has nothing more, or it is at end of file (an empty chunk), where
  every further read returns \<^verbatim>\<open>b""\<close>.
\<close>

function read_loop :: "bytes \<Rightarrow> bytes list \<Rightarrow> (bytes \<times> bytes list) option" where
  "read_loop output pipe =
     (if at_sentinel output then Some (output, pipe)
      else
        (case os_read block_size pipe of
           None \<Rightarrow> None
         | Some (c, rest) \<Rightarrow> if c = [] then None else read_loop (output @ c) rest))"
  by pat_completeness auto
termination
proof (relation "measure (\<lambda>(output, pipe). length (concat pipe) + length pipe)")
  show "wf (measure (\<lambda>(output, pipe). length (concat pipe) + length pipe))"
    by simp
next
  fix out :: bytes and pipe :: "bytes list" and x2 :: "bytes \<times> bytes list"
    and c :: bytes and rest :: "bytes list"
  assume "os_read block_size pipe = Some x2" and "(c, rest) = x2" and "c \<noteq> []"
  then show "((out @ c, rest), (out, pipe))
      \<in> measure (\<lambda>(output, pipe). length (concat pipe) + length pipe)"
    by (cases pipe) (auto simp: block_size_def split: if_splits)
qed

declare read_loop.simps [simp del]

text \<open>\<^verbatim>\<open>ExifTool.execute\<close>. Flushing the batch raises when the subprocess has exited;
  otherwise it makes the tool's answer to the batch readable.\<close>

definition execute :: "env \<Rightarrow> nat \<Rightarrow> bytes list \<Rightarrow> world \<Rightarrow> bytes result \<times> world" where
  "execute E self params w =
     (let s = heap w self in
      if \<not> running s then (Raise ValueError, w)
      else
        (case process s of
           None \<Rightarrow> (Raise AttributeError, w)
         | Some p \<Rightarrow>
             if gone p then (Raise BrokenPipeError, w)
             else
               (let batch = join nl (params @ [''-execute'' @ nl]);
                    p1 = p\<lparr>stdin := stdin p @ batch,
                           stdout := stdout p @ tool E (stdin p) batch\<rparr>
                in case read_loop [] (stdout p1) of
                     None \<Rightarrow> (Blocked, set_session self (s\<lparr>process := Some p1\<rparr>) w)
                   | Some (output, rest) \<Rightarrow>
                       (Return (drop_last (length sentinel) (strip output)),
                        set_session self (s\<lparr>process := Some (p1\<lparr>stdout := rest\<rparr>)\<rparr>) w))))"

subsection \<open>\<^verbatim>\<open>execute_json\<close>\<close>

text \<open>\<^verbatim>\<open>fsencode\<close>: bytes unchanged, text through the filesystem codec.\<close>

fun fsencode :: "env \<Rightarrow> token \<Rightarrow> error + bytes" where
  "fsencode E (Bytes b) = Inr b"
| "fsencode E (Text t) =
     (case encode E t of None \<Rightarrow> Inl UnicodeEncodeError | Some b \<Rightarrow> Inr b)"

text \<open>\<^verbatim>\<open>map(fsencode, params)\<close>, consumed when the arguments of \<^verbatim>\<open>execute\<close> are unpacked:
  the first parameter that does not encode raises, before \<^verbatim>\<open>execute\<close> is entered.\<close>

fun encode_params :: "env \<Rightarrow> token list \<Rightarrow> error + bytes list" where
  "encode_params E [] = Inr []"
| "encode_params E (t # ts) =
     (case fsencode E t of
        Inl e \<Rightarrow> Inl e
      | Inr b \<Rightarrow> (case encode_params E ts of Inl e \<Rightarrow> Inl e | Inr bs \<Rightarrow> Inr (b # bs)))"

definition execute_json ::
  "env \<Rightarrow> nat \<Rightarrow> token list \<Rightarrow> world \<Rightarrow> record_dict list result \<times> world" where
  "execute_json E self params w =
     (case encode_params E params of
        Inl e \<Rightarrow> (Raise e, w)
      | Inr bs \<Rightarrow>
          (case execute E self (''-j'' # bs) w of
             (Return out, w1) \<Rightarrow>
               (case json_loads E out of
                  Inl e \<Rightarrow> (Raise e, w1)
                | Inr rs \<Rightarrow> (Return rs, w1))
           | (Raise e, w1) \<Rightarrow> (Raise e, w1)
           | (Blocked, w1) \<Rightarrow> (Blocked, w1)))"

subsection \<open>The views\<close>

text \<open>
  \<^verbatim>\<open>FileMetadata\<close> is a \<^verbatim>\<open>dict\<close> subclass: \<open>fm_items\<close> is the dictionary it inherits,
  filled by \<^verbatim>\<open>super().__init__(values)\<close>, and \<open>fm_edits\<close> is \<^verbatim>\<open>_edits\<close>. \<open>fm_values\<close> is
  the instance attribute \<^verbatim>\<open>_values\<close> that \<^verbatim>\<open>__getitem__\<close> reads: \<open>None\<close> while no
  assignment has created it, and \<^verbatim>\<open>__init__\<close> makes none.
\<close>

record file_metadata =
  fm_items :: record_dict
  fm_edits :: "(string \<times> pyvalue) list"
  fm_values :: "record_dict option"

record multi_file_metadata =
  file_paths :: "token list"
  exif_tool :: nat

datatype view = Single file_metadata | Multi multi_file_metadata

definition FileMetadata_init :: "record_dict \<Rightarrow> nat \<Rightarrow> file_metadata" where
  "FileMetadata_init vals et = \<lparr>fm_items = vals, fm_edits = [], fm_values = None\<rparr>"

definition MultiFileMetadata_init :: "token list \<Rightarrow> nat \<Rightarrow> multi_file_metadata" where
  "MultiFileMetadata_init paths et = \<lparr>file_paths = paths, exif_tool = et\<rparr>"

text \<open>\<^verbatim>\<open>FileMetadata.__getitem__\<close>: \<^verbatim>\<open>return self._values[key]\<close>.\<close>

definition fm_getitem :: "file_metadata \<Rightarrow> string \<Rightarrow> pyvalue result" where
  "fm_getitem fm key =
     (case fm_values fm of
        None \<Rightarrow> Raise AttributeError
      | Some d \<Rightarrow> (case d key of None \<Rightarrow> Raise KeyError | Some v \<Rightarrow> Return v))"

text \<open>\<^verbatim>\<open>dict.get(key, default)\<close>, which a \<^verbatim>\<open>dict\<close> subclass inherits and which does not go
  through \<^verbatim>\<open>__getitem__\<close>.\<close>

definition dict_get :: "record_dict \<Rightarrow> string \<Rightarrow> pyvalue \<Rightarrow> pyvalue" where
  "dict_get d key dflt = (case d key of None \<Rightarrow> dflt | Some v \<Rightarrow> v)"

text \<open>
  A bare \<^verbatim>\<open>raise\<close> re-raises the exception being handled where the call is made, when
  there is one (the call stands inside an \<^verbatim>\<open>except\<close> block, directly or through callers);
  with none it raises \<^verbatim>\<open>RuntimeError\<close> (no active exception to re-raise).
\<close>

definition bare_raise :: "error option \<Rightarrow> error" where
  "bare_raise active = (case active of None \<Rightarrow> RuntimeError | Some e \<Rightarrow> e)"

text \<open>
  The mutation methods end in a bare \<^verbatim>\<open>raise\<close>; their first argument is the exception
  being handled at the call, if any. Each returns the error and the view as the call
  leaves it. \<^verbatim>\<open>FileMetadata.__setitem__\<close> and \<^verbatim>\<open>__delitem__\<close> call the dictionary's own
  method first; \<^verbatim>\<open>dict.__delitem__\<close> raises \<^verbatim>\<open>KeyError\<close> for a missing key.
\<close>

definition fm_setitem ::
  "error option \<Rightarrow> file_metadata \<Rightarrow> string \<Rightarrow> pyvalue \<Rightarrow> unit result \<times> file_metadata" where
  "fm_setitem active fm key v =
     (Raise (bare_raise active), fm\<lparr>fm_items := (fm_items fm)(key \<mapsto> v)\<rparr>)"

definition fm_delitem ::
  "error option \<Rightarrow> file_metadata \<Rightarrow> string \<Rightarrow> unit result \<times> file_metadata" where
  "fm_delitem active fm key =
     (case fm_items fm key of
        None \<Rightarrow> (Raise KeyError, fm)
      | Some v \<Rightarrow> (Raise (bare_raise active), fm\<lparr>fm_items := (fm_items fm)(key := None)\<rparr>))"

definition fm_write :: "error option \<Rightarrow> file_metadata \<Rightarrow> unit result \<times> file_metadata" where
  "fm_write active fm = (Raise (bare_raise active), fm)"

definition mfm_setitem ::
  "error option \<Rightarrow> multi_file_metadata \<Rightarrow> string \<Rightarrow> pyvalue
     \<Rightarrow> unit result \<times> multi_file_metadata" where
  "mfm_setitem active v key val = (Raise (bare_raise active), v)"

definition mfm_delitem ::
  "error option \<Rightarrow> multi_file_metadata \<Rightarrow> string \<Rightarrow> unit result \<times> multi_file_metadata" where
  "mfm_delitem active v key = (Raise (bare_raise active), v)"

definition mfm_write ::
  "error option \<Rightarrow> multi_file_metadata \<Rightarrow> unit result \<times> multi_file_metadata" where
  "mfm_write active v = (Raise (bare_raise active), v)"

text \<open>\<^verbatim>\<open>MultiFileMetadata._execute\<close>.\<close>

definition mfm_execute ::
  "env \<Rightarrow> multi_file_metadata \<Rightarrow> token list \<Rightarrow> world \<Rightarrow> record_dict list result \<times> world" where
  "mfm_execute E v params w =
     (if running (heap w (exif_tool v)) then execute_json E (exif_tool v) params w
      else with_session E (exif_tool v) (execute_json E (exif_tool v) params) w)"

text \<open>
  \<^verbatim>\<open>__iter__\<close> and \<^verbatim>\<open>__getitem__\<close> are generators: nothing runs until the first element is
  asked for, then \<^verbatim>\<open>_execute\<close> runs to its end and the elements follow one by one without
  further effect. The model gives the elements of a full traversal and the world after it.
\<close>

definition mfm_iter ::
  "env \<Rightarrow> multi_file_metadata \<Rightarrow> world \<Rightarrow> file_metadata list result \<times> world" where
  "mfm_iter E v w =
     (case mfm_execute E v (Text ''-r'' # file_paths v) w of
        (Return rs, w1) \<Rightarrow> (Return (map (\<lambda>r. FileMetadata_init r (exif_tool v)) rs), w1)
      | (Raise e, w1) \<Rightarrow> (Raise e, w1)
      | (Blocked, w1) \<Rightarrow> (Blocked, w1))"

definition mfm_getitem ::
  "env \<Rightarrow> multi_file_metadata \<Rightarrow> string \<Rightarrow> world \<Rightarrow> pyvalue list result \<times> world" where
  "mfm_getitem E v key w =
     (case mfm_execute E v (Text (''-'' @ key) # Text ''-r'' # file_paths v) w of
        (Return rs, w1) \<Rightarrow> (Return (map (\<lambda>r. dict_get r key PNone) rs), w1)
      | (Raise e, w1) \<Rightarrow> (Raise e, w1)
      | (Blocked, w1) \<Rightarrow> (Blocked, w1))"

subsection \<open>\<^verbatim>\<open>metadata\<close>\<close>

text \<open>\<^verbatim>\<open>ExifTool.metadata\<close>. \<^verbatim>\<open>next(x for x in records)\<close> is the first record, and
  \<^verbatim>\<open>StopIteration\<close> when there is none.\<close>

definition metadata :: "env \<Rightarrow> nat \<Rightarrow> token list \<Rightarrow> world \<Rightarrow> view result \<times> world" where
  "metadata E self paths w =
     (if length paths = 1 \<and> isfile E (paths ! 0) then
        (case execute_json E self [paths ! 0] w of
           (Return rs, w1) \<Rightarrow>
             (case rs of
                [] \<Rightarrow> (Raise StopIteration, w1)
              | exif_values # rest \<Rightarrow> (Return (Single (FileMetadata_init exif_values self)), w1))
         | (Raise e, w1) \<Rightarrow> (Raise e, w1)
         | (Blocked, w1) \<Rightarrow> (Blocked, w1))
      else (Return (Multi (MultiFileMetadata_init paths self)), w))"

text \<open>The module's \<^verbatim>\<open>batch\<close> and \<^verbatim>\<open>metadata\<close>.\<close>

definition batch :: "string option \<Rightarrow> world \<Rightarrow> nat \<times> world" where
  "batch exe w = ExifTool_init exe w"

definition module_metadata :: "env \<Rightarrow> token list \<Rightarrow> world \<Rightarrow> view result \<times> world" where
  "module_metadata E paths w =
     (case ExifTool_init None w of
        (et, w0) \<Rightarrow> with_session E et (metadata E et paths) w0)"

subsection \<open>A test double\<close>

text \<open>
  A fake environment in the style of a canned subprocess, for running the definitions on
  concrete inputs: a strict ASCII codec, two files of which one is \<^verbatim>\<open>a.jpg\<close>, a tool that
  answers three known batches with JSON text followed by the sentinel line, and a decoder
  that knows those three texts.
\<close>

definition ascii_encode :: "string \<Rightarrow> bytes option" where
  "ascii_encode t = (if list_all (\<lambda>c. (of_char c :: nat) < 128) t then Some t else None)"

definition dq :: bytes where
  "dq = [CHR 0x22]"

definition json_a :: bytes where
  "json_a = ''[{'' @ dq @ ''SourceFile'' @ dq @ '': '' @ dq @ ''a.jpg'' @ dq @ '', ''
     @ dq @ ''EXIF:Make'' @ dq @ '': '' @ dq @ ''Canon'' @ dq @ ''}]''"

definition json_ab :: bytes where
  "json_ab = ''[{'' @ dq @ ''SourceFile'' @ dq @ '': '' @ dq @ ''a.jpg'' @ dq @ '', ''
     @ dq @ ''EXIF:Make'' @ dq @ '': '' @ dq @ ''Canon'' @ dq @ '', ''
     @ dq @ ''File:FileSize'' @ dq @ '': 1024},''
     @ nl @ ''{'' @ dq @ ''SourceFile'' @ dq @ '': '' @ dq @ ''b.png'' @ dq @ '', ''
     @ dq @ ''File:FileSize'' @ dq @ '': 2048}]''"

definition json_ab_make :: bytes where
  "json_ab_make = ''[{'' @ dq @ ''SourceFile'' @ dq @ '': '' @ dq @ ''a.jpg'' @ dq @ '', ''
     @ dq @ ''EXIF:Make'' @ dq @ '': '' @ dq @ ''Canon'' @ dq @ ''},''
     @ nl @ ''{'' @ dq @ ''SourceFile'' @ dq @ '': '' @ dq @ ''b.png'' @ dq @ ''}]''"

definition rec_a :: record_dict where
  "rec_a = [''SourceFile'' \<mapsto> PStr ''a.jpg'', ''EXIF:Make'' \<mapsto> PStr ''Canon'']"

definition rec_a_full :: record_dict where
  "rec_a_full = [''SourceFile'' \<mapsto> PStr ''a.jpg'', ''EXIF:Make'' \<mapsto> PStr ''Canon'',
                 ''File:FileSize'' \<mapsto> PInt 1024]"

definition rec_b :: record_dict where
  "rec_b = [''SourceFile'' \<mapsto> PStr ''b.png'']"

definition rec_b_full :: record_dict where
  "rec_b_full = [''SourceFile'' \<mapsto> PStr ''b.png'', ''File:FileSize'' \<mapsto> PInt 2048]"

definition fake_loads :: "bytes \<Rightarrow> error + record_dict list" where
  "fake_loads b =
     (if b = json_a @ nl then Inr [rec_a]
      else if b = json_ab @ nl then Inr [rec_a_full, rec_b_full]
      else if b = json_ab_make @ nl then Inr [rec_a, rec_b]
      else Inl JSONDecodeError)"

definition fake_tool :: "bytes \<Rightarrow> bytes \<Rightarrow> bytes list" where
  "fake_tool history b =
     (if b = ''-j'' @ nl @ ''a.jpg'' @ nl @ ''-execute'' @ nl
        then [json_a @ nl @ sentinel @ nl]
      else if b = ''-j'' @ nl @ ''-r'' @ nl @ ''a.jpg'' @ nl @ ''b.png'' @ nl @ ''-execute'' @ nl
        then [json_ab @ nl @ sentinel @ nl]
      else if b = ''-j'' @ nl @ ''-EXIF:Make'' @ nl @ ''-r'' @ nl @ ''a.jpg'' @ nl @ ''b.png'' @ nl
                  @ ''-execute'' @ nl
        then [json_ab_make @ nl, sentinel @ nl]
      else [sentinel @ nl])"

definition fake_env :: env where
  "fake_env =
     \<lparr>encode = ascii_encode, json_loads = fake_loads,
      isfile = (\<lambda>t. t = Text ''a.jpg'' \<or> t = Text ''b.png''),
      popen_ok = (\<lambda>e. e = ''exiftool''), tool = fake_tool\<rparr>"

text \<open>The fake subprocess of an echo test: whatever the batch, it writes the payload, a
  space and the sentinel.\<close>

definition echo_env :: "bytes \<Rightarrow> env" where
  "echo_env payload = fake_env\<lparr>tool := (\<lambda>history b. [payload @ '' '' @ sentinel])\<rparr>"

text \<open>A world with no instance yet; then one instance, created; then the same, started.\<close>

definition world0 :: world where
  "world0 =
     \<lparr>heap = (\<lambda>r. \<lparr>executable = default_executable, running = False, process = None\<rparr>),
      next_ref = 0, next_pid = 0, warnings = [], exited = []\<rparr>"

definition world_created :: world where
  "world_created = snd (ExifTool_init None world0)"

definition world_started :: world where
  "world_started = snd (start fake_env 0 world_created)"

text \<open>The subprocess of a session exits, by itself or killed: its output ends.\<close>

definition subprocess_exits :: "nat \<Rightarrow> world \<Rightarrow> world" where
  "subprocess_exits self w =
     set_session self
       ((heap w self)\<lparr>process := map_option (\<lambda>p. p\<lparr>stdout := stdout p @ [[]]\<rparr>)
                                    (process (heap w self))\<rparr>) w"

definition world_exited :: world where
  "world_exited = subprocess_exits 0 world_started"



text \<open>A Multi-File View of the two files, bound to that instance.\<close>

definition view_ab :: multi_file_metadata where
  "view_ab = MultiFileMetadata_init [Text ''a.jpg'', Text ''b.png''] 0"

section \<open>Properties\<close>

subsection \<open>The fixtures, evaluated\<close>

lemma world_created_session:
  "heap world_created 0 = \<lparr>executable = ''exiftool'', running = False, process = None\<rparr>"
  by (simp add: world_created_def world0_def ExifTool_init_def set_session_def
      default_executable_def)

lemma world_started_session:
  "heap world_started 0
     = \<lparr>executable = ''exiftool'', running = True,
        process = Some \<lparr>pid = 0, stdin = [], stdout = []\<rparr>\<rparr>"
  by (simp add: world_started_def world_created_def world0_def ExifTool_init_def start_def
      set_session_def fake_env_def default_executable_def)

lemma world_started_next_pid: "next_pid world_started = 1"
  by (simp add: world_started_def world_created_def world0_def ExifTool_init_def start_def
      set_session_def fake_env_def default_executable_def)

subsection \<open>Starting and terminating\<close>

text \<open>
  C8. On a running session \<^verbatim>\<open>start()\<close> returns normally and only adds a warning: every
  instance in the store keeps its running flag and its process handle (so the process
  identity is the same), and the count of launched subprocesses does not move.
\<close>

theorem start_when_running:
  assumes "running (heap w self)"
  shows "fst (start E self w) = Return ()
       \<and> heap (snd (start E self w)) = heap w
       \<and> next_pid (snd (start E self w)) = next_pid w
       \<and> exited (snd (start E self w)) = exited w
       \<and> warnings (snd (start E self w))
           = warnings w @ [''ExifTool already running; doing nothing.'']"
  using assms by (simp add: start_def)

theorem start_when_running_witness:
  "running (heap world_started 0)
   \<and> fst (start fake_env 0 world_started) = Return ()
   \<and> running (heap (snd (start fake_env 0 world_started)) 0)
   \<and> process (heap (snd (start fake_env 0 world_started)) 0)
       = Some \<lparr>pid = 0, stdin = [], stdout = []\<rparr>
   \<and> next_pid (snd (start fake_env 0 world_started)) = 1"
  using start_when_running [of world_started 0 fake_env]
  by (simp add: world_started_session world_started_next_pid)

lemma world_exited_session:
  "heap world_exited 0
     = \<lparr>executable = ''exiftool'', running = True,
        process = Some \<lparr>pid = 0, stdin = [], stdout = [[]]\<rparr>\<rparr>"
  by (simp add: world_exited_def subprocess_exits_def set_session_def world_started_session)

lemma terminate_not_running:
  "\<not> running (heap w self) \<Longrightarrow> terminate E self w = (Return (), w)"
  by (simp add: terminate_def)

lemma terminate_running:
  assumes "running (heap w self)" and "process (heap w self) = Some p"
    and "[] \<notin> set (stdout p)"
  shows "fst (terminate E self w) = Return ()
       \<and> \<not> running (heap (snd (terminate E self w)) self)
       \<and> process (heap (snd (terminate E self w)) self) = None
       \<and> executable (heap (snd (terminate E self w)) self) = executable (heap w self)
       \<and> next_pid (snd (terminate E self w)) = next_pid w
       \<and> exited (snd (terminate E self w))
           = exited w @ [p\<lparr>stdin := stdin p @ ''-stay_open'' @ nl @ ''False'' @ nl,
                           stdout := []\<rparr>]"
  using assms by (simp add: terminate_def Let_def set_session_def gone_def)

lemma terminate_gone:
  assumes "running (heap w self)" and "process (heap w self) = Some p"
    and "[] \<in> set (stdout p)"
  shows "terminate E self w = (Raise BrokenPipeError, w)"
  using assms by (simp add: terminate_def Let_def gone_def)

lemma start_launches:
  assumes "\<not> running (heap w self)" and "popen_ok E (executable (heap w self))"
  shows "fst (start E self w) = Return ()
       \<and> running (heap (snd (start E self w)) self)
       \<and> process (heap (snd (start E self w)) self)
           = Some \<lparr>pid = next_pid w, stdin = [], stdout = []\<rparr>
       \<and> executable (heap (snd (start E self w)) self) = executable (heap w self)
       \<and> next_pid (snd (start E self w)) = Suc (next_pid w)
       \<and> exited (snd (start E self w)) = exited w"
  using assms by (simp add: start_def Let_def set_session_def)


text \<open>
  C9, as the code has it. \<^verbatim>\<open>terminate()\<close> on a session that is not running returns and
  changes nothing. On a session that, if flagged running, holds a subprocess that has not
  exited: \<^verbatim>\<open>terminate()\<close> returns normally and leaves the session not running, a second
  \<^verbatim>\<open>terminate()\<close> right after it returns normally and changes nothing, and a \<^verbatim>\<open>start()\<close>
  after it launches, where the executable can be launched, a new subprocess with a process
  identity not given out before and empty pipes, the session running. On a running
  session whose subprocess has exited already, \<^verbatim>\<open>terminate()\<close> raises the broken-pipe
  error of the write and changes nothing: the session stays flagged running.
\<close>

theorem terminate_twice_then_start:
  "(\<not> running (heap w self) \<longrightarrow> terminate E self w = (Return (), w))
   \<and> ((running (heap w self) \<longrightarrow>
         (\<exists>p. process (heap w self) = Some p \<and> [] \<notin> set (stdout p))) \<longrightarrow>
        fst (terminate E self w) = Return ()
        \<and> \<not> running (heap (snd (terminate E self w)) self)
        \<and> terminate E self (snd (terminate E self w)) = (Return (), snd (terminate E self w))
        \<and> (popen_ok E (executable (heap w self)) \<longrightarrow>
             fst (start E self (snd (terminate E self w))) = Return ()
             \<and> heap (snd (start E self (snd (terminate E self w)))) self
                 = \<lparr>executable = executable (heap w self), running = True,
                    process = Some \<lparr>pid = next_pid w, stdin = [], stdout = []\<rparr>\<rparr>
             \<and> next_pid (snd (start E self (snd (terminate E self w)))) = Suc (next_pid w)))
   \<and> (running (heap w self) \<and> process (heap w self) = Some q \<and> [] \<in> set (stdout q) \<longrightarrow>
        terminate E self w = (Raise BrokenPipeError, w))"
proof (intro conjI impI)
  assume "\<not> running (heap w self)"
  then show "terminate E self w = (Return (), w)" by (rule terminate_not_running)
next
  assume "running (heap w self) \<and> process (heap w self) = Some q \<and> [] \<in> set (stdout q)"
  then show "terminate E self w = (Raise BrokenPipeError, w)"
    by (simp add: terminate_gone)
next
  assume h: "running (heap w self) \<longrightarrow>
      (\<exists>p. process (heap w self) = Some p \<and> [] \<notin> set (stdout p))"
  define w1 where "w1 = snd (terminate E self w)"
  have t: "fst (terminate E self w) = Return () \<and> \<not> running (heap w1 self)
      \<and> executable (heap w1 self) = executable (heap w self) \<and> next_pid w1 = next_pid w"
  proof (cases "running (heap w self)")
    case True
    with h obtain p where "process (heap w self) = Some p" "[] \<notin> set (stdout p)" by blast
    from terminate_running [OF True this] show ?thesis by (simp add: w1_def)
  next
    case False
    then show ?thesis by (simp add: w1_def terminate_not_running)
  qed
  from t show "fst (terminate E self w) = Return ()" by simp
  from t show "\<not> running (heap (snd (terminate E self w)) self)" by (simp add: w1_def)
  from t show "terminate E self (snd (terminate E self w))
      = (Return (), snd (terminate E self w))"
    unfolding w1_def [symmetric] by (simp add: terminate_not_running)
  assume ok: "popen_ok E (executable (heap w self))"
  from t ok have off: "\<not> running (heap w1 self)"
    and ok1: "popen_ok E (executable (heap w1 self))" by simp_all
  have s: "heap (snd (start E self w1)) self
      = \<lparr>executable = executable (heap w1 self), running = True,
         process = Some \<lparr>pid = next_pid w1, stdin = [], stdout = []\<rparr>\<rparr>"
    using off ok1 by (simp add: start_def Let_def set_session_def)
  from start_launches [OF off ok1] s t
  show "fst (start E self (snd (terminate E self w))) = Return ()"
    and "heap (snd (start E self (snd (terminate E self w)))) self
      = \<lparr>executable = executable (heap w self), running = True,
         process = Some \<lparr>pid = next_pid w, stdin = [], stdout = []\<rparr>\<rparr>"
    and "next_pid (snd (start E self (snd (terminate E self w)))) = Suc (next_pid w)"
    unfolding w1_def [symmetric] by simp_all
qed

theorem terminate_twice_then_start_witness:
  "running (heap world_started 0)
   \<and> process (heap world_started 0) = Some \<lparr>pid = 0, stdin = [], stdout = []\<rparr>
   \<and> fst (terminate fake_env 0 world_started) = Return ()
   \<and> running (heap (snd (terminate fake_env 0 world_started)) 0) = False
   \<and> terminate fake_env 0 (snd (terminate fake_env 0 world_started))
       = (Return (), snd (terminate fake_env 0 world_started))
   \<and> popen_ok fake_env ''exiftool''
   \<and> fst (start fake_env 0 (snd (terminate fake_env 0 world_started))) = Return ()
   \<and> heap (snd (start fake_env 0 (snd (terminate fake_env 0 world_started)))) 0
        = \<lparr>executable = ''exiftool'', running = True,
           process = Some \<lparr>pid = 1, stdin = [], stdout = []\<rparr>\<rparr>
   \<and> running (heap world_created 0) = False
   \<and> terminate fake_env 0 world_created = (Return (), world_created)"
  using terminate_twice_then_start [of world_started 0 fake_env]
    terminate_twice_then_start [of world_created 0 fake_env]
  by (simp add: world_started_session world_started_next_pid world_created_session
      fake_env_def)

text \<open>
  The claim as stated fails on a session whose subprocess has exited (it crashed or was
  killed) while the session is flagged running: \<^verbatim>\<open>terminate()\<close> raises, and the session is
  still flagged running after it.
\<close>

theorem terminate_exited_subprocess_counterexample:
  "running (heap world_exited 0)
   \<and> process (heap world_exited 0) = Some \<lparr>pid = 0, stdin = [], stdout = [[]]\<rparr>
   \<and> terminate fake_env 0 world_exited = (Raise BrokenPipeError, world_exited)
   \<and> running (heap (snd (terminate fake_env 0 world_exited)) 0)"
  by (simp add: terminate_def gone_def world_exited_session)

subsection \<open>Executing on a session that is not running\<close>

lemma execute_not_running:
  "\<not> running (heap w self) \<Longrightarrow> execute E self params w = (Raise ValueError, w)"
  by (simp add: execute_def)

lemma encode_params_error:
  "encode_params E tokens = Inl e \<Longrightarrow> e = UnicodeEncodeError"
proof (induction tokens)
  case Nil
  then show ?case by simp
next
  case (Cons t ts)
  then show ?case
    by (cases t) (auto split: sum.splits option.splits)
qed

lemma world_terminated_session:
  "heap (snd (terminate fake_env 0 world_started)) 0
     = \<lparr>executable = ''exiftool'', running = False, process = None\<rparr>"
  by (simp add: terminate_def set_session_def gone_def world_started_session)

text \<open>
  C2, as the code has it. On a session that is not running (created and never started, or
  terminated), \<^verbatim>\<open>execute\<close> raises \<^verbatim>\<open>ValueError\<close>, and \<^verbatim>\<open>execute_json\<close> raises \<^verbatim>\<open>ValueError\<close>
  when all its parameters encode and the codec's \<^verbatim>\<open>UnicodeEncodeError\<close> when one does not
  (the parameters are encoded before the running check is reached). In every case the
  whole world is as it was: the store, the pipes of every process, the launch counter.
\<close>

theorem execute_not_running_raises:
  assumes "\<not> running (heap w self)"
  shows "execute E self params w = (Raise ValueError, w)
       \<and> execute_json E self tokens w
           = (case encode_params E tokens of
                Inl e \<Rightarrow> (Raise UnicodeEncodeError, w)
              | Inr bs \<Rightarrow> (Raise ValueError, w))"
proof (cases "encode_params E tokens")
  case (Inl e)
  then have "e = UnicodeEncodeError" by (rule encode_params_error)
  with Inl assms show ?thesis
    by (simp add: execute_json_def execute_not_running)
next
  case (Inr bs)
  with assms show ?thesis
    by (simp add: execute_json_def execute_not_running)
qed

theorem execute_not_running_raises_witness:
  "running (heap world_created 0) = False
   \<and> execute fake_env 0 [''-ver''] world_created = (Raise ValueError, world_created)
   \<and> encode_params fake_env [Text ''a.jpg''] = Inr [''a.jpg'']
   \<and> execute_json fake_env 0 [Text ''a.jpg''] world_created
        = (Raise ValueError, world_created)
   \<and> running (heap (snd (terminate fake_env 0 world_started)) 0) = False
   \<and> execute_json fake_env 0 [Text ''a.jpg''] (snd (terminate fake_env 0 world_started))
        = (Raise ValueError, snd (terminate fake_env 0 world_started))"
proof -
  have enc: "encode_params fake_env [Text ''a.jpg''] = Inr [''a.jpg'']"
    by (simp add: fake_env_def ascii_encode_def)
  show ?thesis
    using execute_not_running_raises [of world_created 0 fake_env "[''-ver'']" "[Text ''a.jpg'']"]
      execute_not_running_raises [of "snd (terminate fake_env 0 world_started)" 0 fake_env
        "[''-ver'']" "[Text ''a.jpg'']"]
      enc
    by (simp add: world_created_session world_terminated_session)
qed

text \<open>
  The claim as stated fails for \<^verbatim>\<open>execute_json\<close> with a text parameter that the filesystem
  codec rejects, here a file name with the letter e acute under a strict ASCII codec: the
  error raised on the session that is not running is the codec's, not the invalid-state
  error.
\<close>

theorem execute_json_unencodable_counterexample:
  "running (heap world_created 0) = False
   \<and> encode fake_env [CHR 0xE9] = None
   \<and> execute_json fake_env 0 [Text [CHR 0xE9]] world_created
        = (Raise UnicodeEncodeError, world_created)
   \<and> UnicodeEncodeError \<noteq> ValueError"
  by (simp add: execute_json_def fake_env_def ascii_encode_def world_created_session)

subsection \<open>The views\<close>

text \<open>
  C3. Reading a field of a Single-File View by key: \<^verbatim>\<open>__getitem__\<close> looks the key up in
  the attribute \<^verbatim>\<open>_values\<close>, which the constructor never creates, so for every record,
  every session and every key the read raises \<^verbatim>\<open>AttributeError\<close>; the record's value is
  in the inherited dictionary all the while.
\<close>

theorem fm_getitem_raises:
  "fm_getitem (FileMetadata_init vals et) key = Raise AttributeError
   \<and> fm_items (FileMetadata_init vals et) key = vals key"
  by (simp add: fm_getitem_def FileMetadata_init_def)

text \<open>
  C4, as the code has it. Every mutation of either view raises. The error is that of the
  bare \<^verbatim>\<open>raise\<close>: \<^verbatim>\<open>RuntimeError\<close> when the call is made outside any exception handler,
  and the exception being handled when it is made inside one; only the delete of a key
  that a Single-File View does not have raises \<^verbatim>\<open>KeyError\<close> instead, wherever it is called.
  On a Multi-File View (set, delete, write), for \<^verbatim>\<open>write\<close> on a Single-File View and for the
  delete of an absent key the view is left as it was. On a Single-File View, set has
  stored the value under the key when it raises, and delete of a key that is present has
  removed it; every other field of the record is as before.
\<close>

theorem mutation_raises:
  "mfm_setitem active v key val
     = (Raise (case active of None \<Rightarrow> RuntimeError | Some e \<Rightarrow> e), v)
   \<and> mfm_delitem active v key
       = (Raise (case active of None \<Rightarrow> RuntimeError | Some e \<Rightarrow> e), v)
   \<and> mfm_write active v = (Raise (case active of None \<Rightarrow> RuntimeError | Some e \<Rightarrow> e), v)
   \<and> fm_write active fm = (Raise (case active of None \<Rightarrow> RuntimeError | Some e \<Rightarrow> e), fm)
   \<and> fst (fm_setitem active fm key val)
       = Raise (case active of None \<Rightarrow> RuntimeError | Some e \<Rightarrow> e)
   \<and> fm_items (snd (fm_setitem active fm key val)) key = Some val
   \<and> (\<forall>k. k = key \<or> fm_items (snd (fm_setitem active fm key val)) k = fm_items fm k)
   \<and> fm_edits (snd (fm_setitem active fm key val)) = fm_edits fm
   \<and> fm_delitem active fm key
       = (if key \<in> dom (fm_items fm)
          then (Raise (case active of None \<Rightarrow> RuntimeError | Some e \<Rightarrow> e),
                fm\<lparr>fm_items := (fm_items fm)(key := None)\<rparr>)
          else (Raise KeyError, fm))"
  by (auto simp: mfm_setitem_def mfm_delitem_def mfm_write_def fm_write_def fm_setitem_def
      fm_delitem_def bare_raise_def split: option.splits)

text \<open>
  The claim as stated fails twice. After the failed set of \<^verbatim>\<open>EXIF:Make\<close> on the record of
  \<^verbatim>\<open>b.png\<close>, which has no such field, the record has it. And the error is no signal of
  its own: called while a \<^verbatim>\<open>KeyError\<close> is being handled, \<^verbatim>\<open>write\<close> raises that \<^verbatim>\<open>KeyError\<close>.
\<close>

theorem mutation_atomic_counterexample:
  "fst (fm_setitem None (FileMetadata_init rec_b 0) ''EXIF:Make'' (PStr ''Canon''))
     = Raise RuntimeError
   \<and> fm_items (FileMetadata_init rec_b 0) ''EXIF:Make'' = None
   \<and> fm_items (snd (fm_setitem None (FileMetadata_init rec_b 0) ''EXIF:Make'' (PStr ''Canon'')))
        ''EXIF:Make'' = Some (PStr ''Canon'')
   \<and> fst (mfm_write (Some KeyError) view_ab) = Raise KeyError
   \<and> fst (fm_write (Some KeyError) (FileMetadata_init rec_b 0)) = Raise KeyError"
  by (simp add: fm_setitem_def fm_write_def mfm_write_def bare_raise_def FileMetadata_init_def
      rec_b_def)

subsection \<open>Stripping and the sentinel\<close>

lemma sentinel_length: "length sentinel = 7"
  by (simp add: sentinel_def)

lemma sentinel_not_space: "c \<in> set sentinel \<Longrightarrow> \<not> is_space c"
  by (auto simp: sentinel_def is_space_def)

lemma lstrip_before_sentinel: "lstrip (x @ sentinel @ w) = lstrip x @ sentinel @ w"
proof -
  have "dropWhile is_space (sentinel @ w) = sentinel @ w"
    by (simp add: sentinel_def is_space_def)
  then show ?thesis
    by (simp add: lstrip_def dropWhile_append)
qed

lemma rstrip_after_sentinel:
  assumes "\<forall>c\<in>set w. is_space c"
  shows "rstrip (y @ sentinel @ w) = y @ sentinel"
proof -
  have "dropWhile is_space (rev sentinel @ rev y) = rev sentinel @ rev y"
    by (simp add: sentinel_def is_space_def)
  with assms show ?thesis
    by (simp add: rstrip_def dropWhile_append)
qed

lemma strip_framed:
  assumes "\<forall>c\<in>set w. is_space c"
  shows "strip (x @ sentinel @ w) = lstrip x @ sentinel"
  using assms by (simp add: strip_def lstrip_before_sentinel rstrip_after_sentinel)

lemma drop_last_sentinel: "drop_last (length sentinel) (y @ sentinel) = y"
  by (simp add: drop_last_def)

lemma strip_decompose: "\<exists>l t. y = l @ strip y @ t \<and> (\<forall>c\<in>set t. is_space c)"
proof -
  let ?d = "dropWhile is_space y"
  let ?t = "rev (takeWhile is_space (rev ?d))"
  have "rev (takeWhile is_space (rev ?d) @ dropWhile is_space (rev ?d)) = ?d"
    by (simp only: takeWhile_dropWhile_id rev_rev_ident)
  then have "rev (dropWhile is_space (rev ?d)) @ ?t = ?d"
    by (simp only: rev_append)
  then have d: "?d = strip y @ ?t"
    by (simp only: strip_def rstrip_def lstrip_def)
  have "y = takeWhile is_space y @ ?d" by simp
  with d have "y = takeWhile is_space y @ strip y @ ?t" by simp
  moreover have "\<forall>c\<in>set ?t. is_space c"
    by (auto dest: set_takeWhileD)
  ultimately show ?thesis by blast
qed

lemma at_sentinel_intro:
  assumes "\<forall>c\<in>set w. is_space c" and "length w \<le> 25"
  shows "at_sentinel (x @ sentinel @ w)"
proof -
  let ?k = "length x + 7 + length w - 32"
  have "last_n 32 (x @ sentinel @ w) = drop ?k x @ sentinel @ w"
    using assms(2) by (simp add: last_n_def sentinel_length)
  then have "strip (last_n 32 (x @ sentinel @ w)) = lstrip (drop ?k x) @ sentinel"
    using assms(1) by (simp add: strip_framed)
  then show ?thesis
    by (simp add: at_sentinel_def endswith_def suffix_def)
qed

lemma at_sentinel_elim:
  assumes "at_sentinel out"
  shows "\<exists>x w. out = x @ sentinel @ w \<and> (\<forall>c\<in>set w. is_space c)"
proof -
  let ?y = "last_n 32 out"
  obtain l t where y: "?y = l @ strip ?y @ t" and t: "\<forall>c\<in>set t. is_space c"
    using strip_decompose by blast
  obtain z where z: "strip ?y = z @ sentinel"
    using assms by (auto simp: at_sentinel_def endswith_def suffix_def)
  have "out = take (length out - 32) out @ ?y"
    by (simp add: last_n_def)
  with y z have "out = (take (length out - 32) out @ l @ z) @ sentinel @ t"
    by simp
  with t show ?thesis by blast
qed

lemma not_at_sentinel_empty: "\<not> at_sentinel []"
  by (simp add: at_sentinel_def endswith_def strip_def lstrip_def rstrip_def last_n_def
      sentinel_def)

subsection \<open>The read loop\<close>

lemma os_read_concat:
  "os_read n pipe = Some (c, rest) \<Longrightarrow> c @ concat rest = concat pipe"
  by (cases pipe) (auto split: if_splits)

lemma os_read_nonempty:
  assumes "pipe \<noteq> []" and "[] \<notin> set pipe" and "0 < n"
  shows "\<exists>c rest. os_read n pipe = Some (c, rest) \<and> c \<noteq> [] \<and> [] \<notin> set rest"
  using assms by (cases pipe) auto

lemma read_loop_sound:
  "read_loop out pipe = Some (out', rest) \<Longrightarrow>
   at_sentinel out' \<and> out' @ concat rest = out @ concat pipe"
proof (induction out pipe rule: read_loop.induct)
  case (1 acc pipe)
  show ?case
  proof (cases "at_sentinel acc")
    case True
    with "1.prems" show ?thesis by (simp add: read_loop.simps)
  next
    case False
    with "1.prems" obtain c r where rd: "os_read block_size pipe = Some (c, r)"
      and ne: "c \<noteq> []" and rec: "read_loop (acc @ c) r = Some (out', rest)"
      by (subst (asm) read_loop.simps) (auto split: option.splits if_splits)
    from "1.IH" [OF False rd refl ne rec] os_read_concat [OF rd]
    show ?thesis by (metis append.assoc)
  qed
qed

lemma read_loop_returns:
  "[] \<notin> set pipe \<Longrightarrow> at_sentinel (out @ concat pipe) \<Longrightarrow> \<exists>r. read_loop out pipe = Some r"
proof (induction out pipe rule: read_loop.induct)
  case (1 acc pipe)
  show ?case
  proof (cases "at_sentinel acc")
    case True
    then show ?thesis by (simp add: read_loop.simps)
  next
    case False
    with "1.prems"(2) have "pipe \<noteq> []" by auto
    with "1.prems"(1) obtain c r where rd: "os_read block_size pipe = Some (c, r)"
      and ne: "c \<noteq> []" and r: "[] \<notin> set r"
      using os_read_nonempty [of pipe block_size] by (auto simp: block_size_def)
    have "at_sentinel ((acc @ c) @ concat r)"
      using "1.prems"(2) os_read_concat [OF rd] by (metis append.assoc)
    from "1.IH" [OF False rd refl ne r this] obtain res
      where "read_loop (acc @ c) r = Some res" by blast
    with False rd ne show ?thesis
      by (subst read_loop.simps) simp
  qed
qed

text \<open>Where the sentinel occurs nowhere before the end of the payload and its whitespace,
  the accumulated bytes at which the loop stops hold all of both.\<close>

lemma sentinel_position:
  assumes eq: "x @ sentinel @ w @ r = pw @ sentinel @ tws"
    and tws: "\<forall>c\<in>set tws. is_space c"
    and first: "\<not> sublist sentinel (pw @ butlast sentinel)"
  shows "x = pw"
proof -
  from append_eq_append_conv2 [THEN iffD1, OF eq]
  consider (long) us where "x = pw @ us" "us @ sentinel @ w @ r = sentinel @ tws"
    | (short) us where "x @ us = pw" "sentinel @ w @ r = us @ sentinel @ tws"
    by blast
  then show ?thesis
  proof cases
    case long
    show ?thesis
    proof (cases us)
      case Nil
      with long show ?thesis by simp
    next
      case (Cons u us')
      with long(2) have e: "us' @ sentinel @ w @ r = ''ready}'' @ tws"
        by (simp add: sentinel_def)
      have "CHR ''{'' \<in> set (us' @ sentinel @ w @ r)"
        by (simp add: sentinel_def)
      then have "CHR ''{'' \<in> set (''ready}'' @ tws)"
        unfolding e .
      then have "CHR ''{'' \<in> set tws" by simp
      with tws have "is_space (CHR ''{'')" by blast
      then have False by (simp add: is_space_def)
      then show ?thesis ..
    qed
  next
    case short
    show ?thesis
    proof (cases us)
      case Nil
      with short show ?thesis by simp
    next
      case (Cons u us')
      have "prefix sentinel (us @ sentinel @ tws)"
        by (rule prefixI [OF short(2) [symmetric]])
      moreover have "prefix (us @ butlast sentinel) (us @ sentinel @ tws)"
        by (simp add: sentinel_def)
      moreover have "length sentinel \<le> length (us @ butlast sentinel)"
        using Cons by (simp add: sentinel_def)
      ultimately have "prefix sentinel (us @ butlast sentinel)"
        by (rule prefix_length_prefix)
      then obtain zs where "us @ butlast sentinel = sentinel @ zs"
        by (auto simp: prefix_def)
      then have "pw @ butlast sentinel = x @ sentinel @ zs"
        using short(1) by (metis append.assoc)
      then have "sublist sentinel (pw @ butlast sentinel)"
        unfolding sublist_def by blast
      with first have False ..
      then show ?thesis ..
    qed
  qed
qed

subsection \<open>\<^verbatim>\<open>execute\<close> on a running session\<close>

lemma execute_running:
  assumes "running (heap w self)" and "process (heap w self) = Some p"
    and "[] \<notin> set (stdout p)"
    and "read_loop [] (stdout p @ tool E (stdin p) (join nl (params @ [''-execute'' @ nl])))
           = Some (out, rest)"
  shows "execute E self params w
           = (Return (drop_last (length sentinel) (strip out)),
              set_session self
                ((heap w self)\<lparr>process := Some (p\<lparr>stdin := stdin p
                     @ join nl (params @ [''-execute'' @ nl]), stdout := rest\<rparr>)\<rparr>) w)"
  using assms by (simp add: execute_def Let_def gone_def)

lemma framed_result:
  assumes stop: "read_loop [] chunks = Some (out, rest)"
    and stream: "concat chunks = pw @ sentinel @ tws"
    and tws: "\<forall>c\<in>set tws. is_space c"
    and first: "\<not> sublist sentinel (pw @ butlast sentinel)"
  shows "drop_last (length sentinel) (strip out) = lstrip pw"
proof -
  from read_loop_sound [OF stop] have at: "at_sentinel out"
    and cat: "out @ concat rest = concat chunks" by simp_all
  from at_sentinel_elim [OF at] obtain x w
    where out: "out = x @ sentinel @ w" and w: "\<forall>c\<in>set w. is_space c" by blast
  from cat out stream have "x @ sentinel @ w @ concat rest = pw @ sentinel @ tws"
    by simp
  then have "x = pw" using tws first by (rule sentinel_position)
  with out w have "strip out = lstrip pw @ sentinel"
    by (simp add: strip_framed)
  then show ?thesis by (simp only: drop_last_sentinel)
qed

text \<open>
  C1, as the code has it. On a running session, let the bytes waiting in the pipe together
  with the tool's answer to the batch be \<open>payload\<close>, then whitespace \<open>ws\<close>, then the
  sentinel, then whitespace \<open>tws\<close> of at most 25 bytes, arriving in any division into
  non-empty chunks, and let the sentinel not occur earlier in these bytes. Then \<^verbatim>\<open>execute\<close>
  returns, and what it returns is \<open>payload\<close> followed by \<open>ws\<close> with leading whitespace
  removed: the sentinel and the whitespace after it are gone, the whitespace between
  payload and sentinel is kept.
\<close>

theorem execute_returns_payload:
  assumes run: "running (heap w self)" and proc: "process (heap w self) = Some p"
    and chunks: "stdout p @ tool E (stdin p) (join nl (params @ [''-execute'' @ nl])) = chunks"
    and nonempty: "[] \<notin> set chunks"
    and stream: "concat chunks = payload @ ws @ sentinel @ tws"
    and ws: "\<forall>c\<in>set ws. is_space c"
    and tws: "\<forall>c\<in>set tws. is_space c" and short: "length tws \<le> 25"
    and first: "\<not> sublist sentinel (payload @ ws @ butlast sentinel)"
  shows "fst (execute E self params w) = Return (lstrip (payload @ ws))"
proof -
  have "at_sentinel ((payload @ ws) @ sentinel @ tws)"
    using tws short by (rule at_sentinel_intro)
  then have "at_sentinel ([] @ concat chunks)"
    using stream by simp
  with nonempty obtain res where "read_loop [] chunks = Some res"
    using read_loop_returns by blast
  then obtain out rest where stop: "read_loop [] chunks = Some (out, rest)"
    by (cases res) simp
  have "drop_last (length sentinel) (strip out) = lstrip (payload @ ws)"
    using stop _ tws
  proof (rule framed_result)
    show "concat chunks = (payload @ ws) @ sentinel @ tws"
      using stream by simp
    show "\<not> sublist sentinel ((payload @ ws) @ butlast sentinel)"
      using first by simp
  qed
  moreover have "[] \<notin> set (stdout p)"
    using nonempty chunks by auto
  then have "fst (execute E self params w)
      = Return (drop_last (length sentinel) (strip out))"
    using execute_running [OF run proc] stop chunks by simp
  ultimately show ?thesis by simp
qed

lemma echo_abc_tool: "tool (echo_env ''abc'') h b = [''abc {ready}'']"
  by (simp add: echo_env_def sentinel_def)

theorem execute_returns_payload_witness:
  "running (heap world_started 0)
   \<and> process (heap world_started 0) = Some \<lparr>pid = 0, stdin = [], stdout = []\<rparr>
   \<and> tool (echo_env ''abc'') [] (join nl ([] @ [''-execute'' @ nl])) = [''abc {ready}'']
   \<and> concat [''abc {ready}''] = ''abc'' @ '' '' @ sentinel @ []
   \<and> list_all is_space '' ''
   \<and> sublist sentinel (''abc'' @ '' '' @ butlast sentinel) = False
   \<and> lstrip (''abc'' @ '' '') = ''abc ''
   \<and> fst (execute (echo_env ''abc'') 0 [] world_started) = Return ''abc ''"
proof -
  have a: "sublist sentinel (''abc'' @ '' '' @ butlast sentinel) = False"
    by (simp add: sentinel_def sublist_Cons_right)
  have b: "lstrip (''abc'' @ '' '') = ''abc ''"
    by (simp add: lstrip_def is_space_def)
  have c: "concat [''abc {ready}''] = ''abc'' @ '' '' @ sentinel @ []"
    by (simp add: sentinel_def)
  have d: "\<forall>c\<in>set '' ''. is_space c" by (simp add: is_space_def)
  have e: "stdout \<lparr>pid = 0, stdin = [], stdout = []\<rparr>
      @ tool (echo_env ''abc'') (stdin \<lparr>pid = 0, stdin = [], stdout = []\<rparr>)
          (join nl ([] @ [''-execute'' @ nl])) = [''abc {ready}'']"
    by (simp add: echo_abc_tool)
  show ?thesis
    using execute_returns_payload [of world_started 0 "\<lparr>pid = 0, stdin = [], stdout = []\<rparr>"
        "echo_env ''abc''" "[]" "[''abc {ready}'']" "''abc''" "'' ''" "[]", OF _ _ e _ c d]
      a b c d
    by (simp add: world_started_session echo_abc_tool)
qed

text \<open>
  The claim as stated fails on the fake subprocess of the echo test: it writes \<^verbatim>\<open>abc\<close>, a
  space and the sentinel, and \<^verbatim>\<open>execute\<close> returns \<^verbatim>\<open>abc\<close> with the space, not \<^verbatim>\<open>abc\<close>.
\<close>

lemma read_loop_abc: "read_loop [] [''abc {ready}''] = Some (''abc {ready}'', [])"
proof -
  have "at_sentinel (''abc '' @ sentinel @ [])"
    by (rule at_sentinel_intro) simp_all
  then have "at_sentinel ''abc {ready}''" by (simp add: sentinel_def)
  then have "read_loop ''abc {ready}'' [] = Some (''abc {ready}'', [])"
    by (simp add: read_loop.simps)
  then show ?thesis
    using not_at_sentinel_empty by (subst read_loop.simps) (simp add: block_size_def)
qed

theorem execute_keeps_whitespace_counterexample:
  "running (heap world_started 0)
   \<and> tool (echo_env ''abc'') [] (''-execute'' @ nl) = [''abc'' @ '' '' @ sentinel]
   \<and> fst (execute (echo_env ''abc'') 0 [] world_started) = Return ''abc ''
   \<and> ''abc '' \<noteq> ''abc''"
  by (simp add: execute_def gone_def world_started_session echo_abc_tool read_loop_abc
      strip_def lstrip_def rstrip_def is_space_def drop_last_def sentinel_def)

subsection \<open>What a query changes and what it leaves\<close>

text \<open>\<^verbatim>\<open>execute\<close> and \<^verbatim>\<open>execute_json\<close> touch nothing but the pipes of the session's process:
  no running flag, no process identity, no counter, no exited process.\<close>

lemma execute_frame:
  "next_pid (snd (execute E self params w)) = next_pid w
   \<and> exited (snd (execute E self params w)) = exited w
   \<and> running (heap (snd (execute E self params w)) r) = running (heap w r)
   \<and> executable (heap (snd (execute E self params w)) r) = executable (heap w r)
   \<and> map_option pid (process (heap (snd (execute E self params w)) r))
       = map_option pid (process (heap w r))"
  by (auto simp: execute_def Let_def set_session_def split: option.splits)

lemma execute_json_encode_fails:
  "encode_params E tokens = Inl e \<Longrightarrow> execute_json E self tokens w = (Raise e, w)"
  by (simp add: execute_json_def)

lemma execute_json_snd:
  "encode_params E tokens = Inr bs \<Longrightarrow>
   snd (execute_json E self tokens w) = snd (execute E self (''-j'' # bs) w)
   \<and> (fst (execute_json E self tokens w) = Blocked
        \<longleftrightarrow> fst (execute E self (''-j'' # bs) w) = Blocked)"
  by (cases "execute E self (''-j'' # bs) w")
     (auto simp: execute_json_def split: result.splits sum.splits)

lemma execute_json_frame:
  "next_pid (snd (execute_json E self tokens w)) = next_pid w
   \<and> exited (snd (execute_json E self tokens w)) = exited w
   \<and> running (heap (snd (execute_json E self tokens w)) r) = running (heap w r)
   \<and> executable (heap (snd (execute_json E self tokens w)) r) = executable (heap w r)
   \<and> map_option pid (process (heap (snd (execute_json E self tokens w)) r))
       = map_option pid (process (heap w r))"
proof (cases "encode_params E tokens")
  case (Inl e)
  then show ?thesis by (simp add: execute_json_encode_fails)
next
  case (Inr bs)
  then show ?thesis
    using execute_frame [of E self "''-j'' # bs" w r] by (simp add: execute_json_snd)
qed

text \<open>Reading leaves no end of file in a pipe that had none: a subprocess that has not
  exited before a query and does not exit while answering has not exited after it.\<close>

lemma os_read_rest:
  "os_read n pipe = Some (c, r) \<Longrightarrow> [] \<notin> set pipe \<Longrightarrow> [] \<notin> set r"
  by (cases pipe) (auto split: if_splits)

lemma read_loop_rest:
  "read_loop out pipe = Some (out', rest) \<Longrightarrow> [] \<notin> set pipe \<Longrightarrow> [] \<notin> set rest"
proof (induction out pipe rule: read_loop.induct)
  case (1 acc pipe)
  show ?case
  proof (cases "at_sentinel acc")
    case True
    with "1.prems" show ?thesis by (simp add: read_loop.simps)
  next
    case False
    with "1.prems"(1) obtain c r where rd: "os_read block_size pipe = Some (c, r)"
      and ne: "c \<noteq> []" and rec: "read_loop (acc @ c) r = Some (out', rest)"
      by (subst (asm) read_loop.simps) (auto split: option.splits if_splits)
    from os_read_rest [OF rd "1.prems"(2)] have "[] \<notin> set r" .
    with "1.IH" [OF False rd refl ne rec] show ?thesis .
  qed
qed



text \<open>A private session around one query: launched, queried, closed.\<close>

lemma with_session_query:
  assumes off: "\<not> running (heap w self)" and ok: "popen_ok E (executable (heap w self))"
    and q: "execute_json E self tokens (snd (start E self w)) = (res, w2)"
    and ret: "res \<noteq> Blocked"
    and p: "process (heap w2 self) = Some p" and op: "[] \<notin> set (stdout p)"
  shows "with_session E self (execute_json E self tokens) w = (res, snd (terminate E self w2))
       \<and> running (heap w2 self)
       \<and> pid p = next_pid w
       \<and> executable (heap w2 self) = executable (heap w self)
       \<and> next_pid w2 = Suc (next_pid w) \<and> exited w2 = exited w"
proof -
  define w1 where "w1 = snd (start E self w)"
  note st = start_launches [OF off ok, folded w1_def]
  from st have s1: "start E self w = (Return (), w1)"
    unfolding w1_def by (metis prod.collapse)
  have q1: "execute_json E self tokens w1 = (res, w2)"
    using q by (simp add: w1_def)
  have fr: "next_pid w2 = next_pid w1 \<and> exited w2 = exited w1
      \<and> running (heap w2 self) = running (heap w1 self)
      \<and> executable (heap w2 self) = executable (heap w1 self)
      \<and> map_option pid (process (heap w2 self)) = map_option pid (process (heap w1 self))"
    using execute_json_frame [of E self tokens w1 self] q1 by simp
  with st have run2: "running (heap w2 self)" by simp
  from fr st p have pid: "pid p = next_pid w" by simp
  define w3 where "w3 = snd (terminate E self w2)"
  from terminate_running [OF run2 p op]
  have t: "terminate E self w2 = (Return (), w3)"
    unfolding w3_def by (metis prod.collapse)
  have "with_session E self (execute_json E self tokens) w = (res, w3)"
    using ret by (cases res) (simp_all add: with_session_def s1 q1 t)
  with run2 pid fr st show ?thesis by (simp add: w3_def)
qed

lemma mfm_execute_reuse:
  "running (heap w (exif_tool v)) \<Longrightarrow>
   mfm_execute E v params w = execute_json E (exif_tool v) params w"
  by (simp add: mfm_execute_def)



subsection \<open>The session policy of a Multi-File View\<close>


lemma mfm_iter_world:
  "snd (mfm_iter E v w) = snd (mfm_execute E v (Text ''-r'' # file_paths v) w)
   \<and> (fst (mfm_iter E v w) = Blocked
        \<longleftrightarrow> fst (mfm_execute E v (Text ''-r'' # file_paths v) w) = Blocked)"
  by (cases "mfm_execute E v (Text ''-r'' # file_paths v) w")
     (auto simp: mfm_iter_def split: result.splits)

lemma mfm_getitem_world:
  "snd (mfm_getitem E v key w)
     = snd (mfm_execute E v (Text (''-'' @ key) # Text ''-r'' # file_paths v) w)
   \<and> (fst (mfm_getitem E v key w) = Blocked
        \<longleftrightarrow> fst (mfm_execute E v (Text (''-'' @ key) # Text ''-r'' # file_paths v) w)
            = Blocked)"
  by (cases "mfm_execute E v (Text (''-'' @ key) # Text ''-r'' # file_paths v) w")
     (auto simp: mfm_getitem_def split: result.splits)




subsection \<open>Queries whose answer is framed by the sentinel\<close>

text \<open>
  The conditions on the bytes a query reads, under which the read loop stops at the
  sentinel of the answer: non-empty reads, the sentinel nowhere before the end of the
  payload, at most 25 bytes of whitespace after it.
\<close>

lemma read_loop_framed:
  assumes nonempty: "[] \<notin> set chunks"
    and stream: "concat chunks = pw @ sentinel @ tws"
    and tws: "\<forall>c\<in>set tws. is_space c" and short: "length tws \<le> 25"
    and first: "\<not> sublist sentinel (pw @ butlast sentinel)"
  shows "\<exists>out rest. read_loop [] chunks = Some (out, rest)
           \<and> drop_last (length sentinel) (strip out) = lstrip pw \<and> [] \<notin> set rest"
proof -
  have "at_sentinel (pw @ sentinel @ tws)"
    using tws short by (rule at_sentinel_intro)
  then have "at_sentinel ([] @ concat chunks)"
    using stream by simp
  with nonempty obtain res where "read_loop [] chunks = Some res"
    using read_loop_returns by blast
  then obtain out rest where stop: "read_loop [] chunks = Some (out, rest)"
    by (cases res) simp
  from stop stream tws first have "drop_last (length sentinel) (strip out) = lstrip pw"
    by (rule framed_result)
  moreover from stop nonempty have "[] \<notin> set rest" by (rule read_loop_rest)
  ultimately show ?thesis using stop by blast
qed

lemma execute_json_framed:
  assumes run: "running (heap w self)" and proc: "process (heap w self) = Some p"
    and enc: "encode_params E tokens = Inr bs"
    and chunks: "stdout p @ tool E (stdin p) (join nl ((''-j'' # bs) @ [''-execute'' @ nl]))
                   = chunks"
    and nonempty: "[] \<notin> set chunks"
    and stream: "concat chunks = pw @ sentinel @ tws"
    and tws: "\<forall>c\<in>set tws. is_space c" and short: "length tws \<le> 25"
    and first: "\<not> sublist sentinel (pw @ butlast sentinel)"
  shows "\<exists>rest. execute_json E self tokens w
           = ((case json_loads E (lstrip pw) of Inl e \<Rightarrow> Raise e | Inr rs \<Rightarrow> Return rs),
              set_session self
                ((heap w self)\<lparr>process := Some (p\<lparr>stdin := stdin p
                     @ join nl ((''-j'' # bs) @ [''-execute'' @ nl]), stdout := rest\<rparr>)\<rparr>) w)
           \<and> [] \<notin> set rest"
proof -
  from read_loop_framed [OF nonempty stream tws short first] obtain out rest
    where rd: "read_loop [] chunks = Some (out, rest)"
      and fr: "drop_last (length sentinel) (strip out) = lstrip pw"
      and rest: "[] \<notin> set rest" by blast
  from nonempty chunks have ng: "[] \<notin> set (stdout p)" by auto
  from execute_running [OF run proc ng rd [folded chunks]] enc fr
  have "execute_json E self tokens w
      = ((case json_loads E (lstrip pw) of Inl e \<Rightarrow> Raise e | Inr rs \<Rightarrow> Return rs),
         set_session self
           ((heap w self)\<lparr>process := Some (p\<lparr>stdin := stdin p
                @ join nl ((''-j'' # bs) @ [''-execute'' @ nl]), stdout := rest\<rparr>)\<rparr>) w)"
    by (simp add: execute_json_def split: sum.splits)
  with rest show ?thesis by blast
qed

lemma mfm_execute_framed:
  assumes session: "(running (heap w (exif_tool v))
        \<and> process (heap w (exif_tool v)) = Some \<lparr>pid = n, stdin = h, stdout = pend\<rparr>)
      \<or> (\<not> running (heap w (exif_tool v)) \<and> popen_ok E (executable (heap w (exif_tool v)))
          \<and> h = [] \<and> pend = [])"
    and enc: "encode_params E params = Inr bs"
    and chunks: "pend @ tool E h (join nl ((''-j'' # bs) @ [''-execute'' @ nl])) = chunks"
    and nonempty: "[] \<notin> set chunks"
    and stream: "concat chunks = pw @ sentinel @ tws"
    and tws: "\<forall>c\<in>set tws. is_space c" and short: "length tws \<le> 25"
    and first: "\<not> sublist sentinel (pw @ butlast sentinel)"
  shows "fst (mfm_execute E v params w)
           = (case json_loads E (lstrip pw) of Inl e \<Rightarrow> Raise e | Inr rs \<Rightarrow> Return rs)
       \<and> running (heap (snd (mfm_execute E v params w)) (exif_tool v))
           = running (heap w (exif_tool v))
       \<and> executable (heap (snd (mfm_execute E v params w)) (exif_tool v))
           = executable (heap w (exif_tool v))
       \<and> next_pid (snd (mfm_execute E v params w))
           = (if running (heap w (exif_tool v)) then next_pid w else Suc (next_pid w))"
  using session
proof (elim disjE conjE)
  let ?et = "exif_tool v"
  assume run: "running (heap w ?et)"
    and proc: "process (heap w ?et) = Some \<lparr>pid = n, stdin = h, stdout = pend\<rparr>"
  have c: "stdout \<lparr>pid = n, stdin = h, stdout = pend\<rparr>
      @ tool E (stdin \<lparr>pid = n, stdin = h, stdout = pend\<rparr>)
          (join nl ((''-j'' # bs) @ [''-execute'' @ nl])) = chunks"
    using chunks by simp
  from execute_json_framed [OF run proc enc c nonempty stream tws short first] run
  show ?thesis
    by (auto simp: mfm_execute_reuse set_session_def)
next
  let ?et = "exif_tool v"
  assume off: "\<not> running (heap w ?et)" and ok: "popen_ok E (executable (heap w ?et))"
    and e: "h = []" "pend = []"
  define w1 where "w1 = snd (start E ?et w)"
  note sl = start_launches [OF off ok, folded w1_def]
  from sl have run1: "running (heap w1 ?et)"
    and p1: "process (heap w1 ?et) = Some \<lparr>pid = next_pid w, stdin = [], stdout = []\<rparr>"
    by simp_all
  have c: "stdout \<lparr>pid = next_pid w, stdin = [], stdout = []\<rparr>
      @ tool E (stdin \<lparr>pid = next_pid w, stdin = [], stdout = []\<rparr>)
          (join nl ((''-j'' # bs) @ [''-execute'' @ nl])) = chunks"
    using chunks e by simp
  define res :: "record_dict list result"
    where "res = (case json_loads E (lstrip pw) of Inl e \<Rightarrow> Raise e | Inr rs \<Rightarrow> Return rs)"
  have nb: "res \<noteq> Blocked" by (simp add: res_def split: sum.splits)
  from execute_json_framed [OF run1 p1 enc c nonempty stream tws short first, folded res_def]
  obtain rest where q: "execute_json E ?et params w1
      = (res,
         set_session ?et
           ((heap w1 ?et)\<lparr>process := Some (\<lparr>pid = next_pid w, stdin = [], stdout = []\<rparr>
              \<lparr>stdin := stdin \<lparr>pid = next_pid w, stdin = [], stdout = []\<rparr>
                 @ join nl ((''-j'' # bs) @ [''-execute'' @ nl]), stdout := rest\<rparr>)\<rparr>) w1)"
    and rest: "[] \<notin> set rest" by blast
  define w2 where "w2 = set_session ?et
           ((heap w1 ?et)\<lparr>process := Some (\<lparr>pid = next_pid w, stdin = [], stdout = []\<rparr>
              \<lparr>stdin := stdin \<lparr>pid = next_pid w, stdin = [], stdout = []\<rparr>
                 @ join nl ((''-j'' # bs) @ [''-execute'' @ nl]), stdout := rest\<rparr>)\<rparr>) w1"
  have p2: "process (heap w2 ?et) = Some \<lparr>pid = next_pid w,
      stdin = join nl ((''-j'' # bs) @ [''-execute'' @ nl]), stdout = rest\<rparr>"
    by (simp add: w2_def set_session_def)
  have op: "[] \<notin> set (stdout \<lparr>pid = next_pid w,
      stdin = join nl ((''-j'' # bs) @ [''-execute'' @ nl]), stdout = rest\<rparr>)"
    using rest by simp
  have q': "execute_json E ?et params (snd (start E ?et w)) = (res, w2)"
    using q by (simp only: w1_def w2_def)
  from with_session_query [OF off ok q' nb p2 op]
  have ws: "with_session E ?et (execute_json E ?et params) w
        = (res, snd (terminate E ?et w2))"
    and run2: "running (heap w2 ?et)"
    and ex2: "executable (heap w2 ?et) = executable (heap w ?et)"
    and np2: "next_pid w2 = Suc (next_pid w)"
    by simp_all
  from terminate_running [OF run2 p2 op, of E] ws off ex2 np2 show ?thesis
    by (simp add: mfm_execute_def res_def)
qed

subsection \<open>The fake tool's answers\<close>

lemma nl_space: "\<forall>c\<in>set nl. is_space c"
  by (simp add: nl_def is_space_def)


lemma fake_encode_full:
  "encode_params fake_env [Text ''-r'', Text ''a.jpg'', Text ''b.png'']
     = Inr [''-r'', ''a.jpg'', ''b.png'']"
  by (simp add: fake_env_def ascii_encode_def)

lemma fake_encode_make:
  "encode_params fake_env [Text (''-'' @ ''EXIF:Make''), Text ''-r'', Text ''a.jpg'', Text ''b.png'']
     = Inr [''-EXIF:Make'', ''-r'', ''a.jpg'', ''b.png'']"
  by (simp add: fake_env_def ascii_encode_def)


lemma fake_tool_full:
  "fake_tool h (join nl ((''-j'' # [''-r'', ''a.jpg'', ''b.png'']) @ [''-execute'' @ nl]))
     = [json_ab @ nl @ sentinel @ nl]"
  by (simp add: fake_tool_def nl_def)

lemma fake_tool_make:
  "fake_tool h
      (join nl ((''-j'' # [''-EXIF:Make'', ''-r'', ''a.jpg'', ''b.png'']) @ [''-execute'' @ nl]))
     = [json_ab_make @ nl, sentinel @ nl]"
  by (simp add: fake_tool_def nl_def)


lemma fake_tool_none:
  "fake_tool h (join nl ((''-j'' # [''-r'']) @ [''-execute'' @ nl])) = [sentinel @ nl]"
  by (simp add: fake_tool_def nl_def)

lemma fake_first_full: "\<not> sublist sentinel ((json_ab @ nl) @ butlast sentinel)"
  by (simp add: json_ab_def dq_def nl_def sentinel_def sublist_Cons_right)

lemma fake_first_make: "\<not> sublist sentinel ((json_ab_make @ nl) @ butlast sentinel)"
  by (simp add: json_ab_make_def dq_def nl_def sentinel_def sublist_Cons_right)


lemma fake_loads_full: "fake_loads (lstrip (json_ab @ nl)) = Inr [rec_a_full, rec_b_full]"
proof -
  have "lstrip (json_ab @ nl) = json_ab @ nl"
    by (simp add: lstrip_def json_ab_def is_space_def)
  moreover have "json_ab @ nl \<noteq> json_a @ nl"
    by (simp add: json_ab_def json_a_def dq_def)
  ultimately show ?thesis by (simp add: fake_loads_def)
qed

lemma fake_loads_make: "fake_loads (lstrip (json_ab_make @ nl)) = Inr [rec_a, rec_b]"
proof -
  have "lstrip (json_ab_make @ nl) = json_ab_make @ nl"
    by (simp add: lstrip_def json_ab_make_def is_space_def)
  moreover have "json_ab_make @ nl \<noteq> json_a @ nl"
    by (simp add: json_ab_make_def json_a_def dq_def)
  moreover have "json_ab_make @ nl \<noteq> json_ab @ nl"
    by (simp add: json_ab_make_def json_ab_def dq_def)
  ultimately show ?thesis by (simp add: fake_loads_def)
qed


lemma fake_loads_none: "fake_loads (lstrip []) = Inl JSONDecodeError"
  by (simp add: fake_loads_def lstrip_def json_a_def json_ab_def json_ab_make_def)










subsection \<open>\<^verbatim>\<open>metadata\<close>\<close>

lemma metadata_multi:
  "\<not> (length paths = 1 \<and> isfile E (paths ! 0)) \<Longrightarrow>
   metadata E self paths w = (Return (Multi \<lparr>file_paths = paths, exif_tool = self\<rparr>), w)"
  by (auto simp: metadata_def MultiFileMetadata_init_def)






subsection \<open>The module's \<^verbatim>\<open>metadata\<close>\<close>

lemma module_metadata_multi:
  assumes multi: "\<not> (length paths = 1 \<and> isfile E (paths ! 0))"
    and ok: "popen_ok E default_executable"
  shows "fst (module_metadata E paths w)
           = Return (Multi \<lparr>file_paths = paths, exif_tool = next_ref w\<rparr>)
       \<and> \<not> running (heap (snd (module_metadata E paths w)) (next_ref w))
       \<and> executable (heap (snd (module_metadata E paths w)) (next_ref w)) = default_executable
       \<and> exited (snd (module_metadata E paths w))
           = exited w @ [\<lparr>pid = next_pid w, stdin = ''-stay_open'' @ nl @ ''False'' @ nl,
                           stdout = []\<rparr>]"
  using ok
  by (simp add: module_metadata_def ExifTool_init_def with_session_def start_def
      terminate_def gone_def metadata_multi [OF multi] set_session_def Let_def)

lemma mfm_iter_fst:
  "fst (mfm_iter E v w)
     = (case fst (mfm_execute E v (Text ''-r'' # file_paths v) w) of
          Return rs \<Rightarrow> Return (map (\<lambda>r. FileMetadata_init r (exif_tool v)) rs)
        | Raise e \<Rightarrow> Raise e
        | Blocked \<Rightarrow> Blocked)"
  by (cases "mfm_execute E v (Text ''-r'' # file_paths v) w")
     (simp add: mfm_iter_def split: result.splits)

lemma mfm_getitem_fst:
  "fst (mfm_getitem E v key w)
     = (case fst (mfm_execute E v (Text (''-'' @ key) # Text ''-r'' # file_paths v) w) of
          Return rs \<Rightarrow> Return (map (\<lambda>r. dict_get r key PNone) rs)
        | Raise e \<Rightarrow> Raise e
        | Blocked \<Rightarrow> Blocked)"
  by (cases "mfm_execute E v (Text (''-'' @ key) # Text ''-r'' # file_paths v) w")
     (simp add: mfm_getitem_def split: result.splits)

lemma private_iter:
  assumes off: "\<not> running (heap w' (exif_tool v))"
    and ok: "popen_ok E (executable (heap w' (exif_tool v)))"
    and enc: "encode_params E (Text ''-r'' # file_paths v) = Inr bs"
    and chunks: "tool E [] (join nl ((''-j'' # bs) @ [''-execute'' @ nl])) = chunks"
    and nonempty: "[] \<notin> set chunks"
    and stream: "concat chunks = pw @ sentinel @ tws"
    and tws: "\<forall>c\<in>set tws. is_space c" and short: "length tws \<le> 25"
    and first: "\<not> sublist sentinel (pw @ butlast sentinel)"
  shows "fst (mfm_iter E v w')
           = (case json_loads E (lstrip pw) of
                Inl e \<Rightarrow> Raise e
              | Inr rs \<Rightarrow> Return (map (\<lambda>r. FileMetadata_init r (exif_tool v)) rs))
       \<and> \<not> running (heap (snd (mfm_iter E v w')) (exif_tool v))
       \<and> executable (heap (snd (mfm_iter E v w')) (exif_tool v))
           = executable (heap w' (exif_tool v))
       \<and> next_pid (snd (mfm_iter E v w')) = Suc (next_pid w')"
proof -
  have s: "(running (heap w' (exif_tool v))
        \<and> process (heap w' (exif_tool v)) = Some \<lparr>pid = 0, stdin = [], stdout = []\<rparr>)
      \<or> (\<not> running (heap w' (exif_tool v)) \<and> popen_ok E (executable (heap w' (exif_tool v)))
          \<and> ([]::bytes) = [] \<and> ([]::bytes list) = [])"
    using off ok by simp
  have c: "[] @ tool E [] (join nl ((''-j'' # bs) @ [''-execute'' @ nl])) = chunks"
    using chunks by simp
  from mfm_execute_framed [OF s enc c nonempty stream tws short first] off show ?thesis
    by (simp add: mfm_iter_fst mfm_iter_world split: sum.splits)
qed

lemma private_getitem:
  assumes off: "\<not> running (heap w' (exif_tool v))"
    and ok: "popen_ok E (executable (heap w' (exif_tool v)))"
    and enc: "encode_params E (Text (''-'' @ key) # Text ''-r'' # file_paths v) = Inr bs"
    and chunks: "tool E [] (join nl ((''-j'' # bs) @ [''-execute'' @ nl])) = chunks"
    and nonempty: "[] \<notin> set chunks"
    and stream: "concat chunks = pw @ sentinel @ tws"
    and tws: "\<forall>c\<in>set tws. is_space c" and short: "length tws \<le> 25"
    and first: "\<not> sublist sentinel (pw @ butlast sentinel)"
  shows "fst (mfm_getitem E v key w')
           = (case json_loads E (lstrip pw) of
                Inl e \<Rightarrow> Raise e
              | Inr rs \<Rightarrow> Return (map (\<lambda>r. dict_get r key PNone) rs))
       \<and> \<not> running (heap (snd (mfm_getitem E v key w')) (exif_tool v))
       \<and> executable (heap (snd (mfm_getitem E v key w')) (exif_tool v))
           = executable (heap w' (exif_tool v))
       \<and> next_pid (snd (mfm_getitem E v key w')) = Suc (next_pid w')"
proof -
  have s: "(running (heap w' (exif_tool v))
        \<and> process (heap w' (exif_tool v)) = Some \<lparr>pid = 0, stdin = [], stdout = []\<rparr>)
      \<or> (\<not> running (heap w' (exif_tool v)) \<and> popen_ok E (executable (heap w' (exif_tool v)))
          \<and> ([]::bytes) = [] \<and> ([]::bytes list) = [])"
    using off ok by simp
  have c: "[] @ tool E [] (join nl ((''-j'' # bs) @ [''-execute'' @ nl])) = chunks"
    using chunks by simp
  from mfm_execute_framed [OF s enc c nonempty stream tws short first] off show ?thesis
    by (simp add: mfm_getitem_fst mfm_getitem_world split: sum.splits)
qed

text \<open>
  C10, as the code has it. The module's \<^verbatim>\<open>metadata\<close>, called with anything but exactly one
  path naming an existing regular file, where the default executable can be launched: it
  returns a Multi-File View of the paths bound to a new session, and at return that
  session is not running; the one subprocess it launched has exited having been sent the
  shutdown directive and nothing else, so no query went out. Later, in any world in which
  that session is not running (the world at return is one, and so is the world after each
  such operation), take an iteration or a field projection for which the answer of a
  freshly launched tool to its batch is a payload, the sentinel and at most 25 bytes of
  whitespace, in non-empty reads, with the sentinel nowhere earlier. It runs through a
  subprocess of its own and leaves the session not running; it returns its elements when
  the payload decodes, and raises the decoder's error when it does not.
\<close>

theorem module_metadata_view_outlives_session:
  assumes multi: "\<not> (length paths = 1 \<and> isfile E (paths ! 0))"
    and ok: "popen_ok E default_executable"
  shows "fst (module_metadata E paths w)
           = Return (Multi \<lparr>file_paths = paths, exif_tool = next_ref w\<rparr>)
       \<and> \<not> running (heap (snd (module_metadata E paths w)) (next_ref w))
       \<and> executable (heap (snd (module_metadata E paths w)) (next_ref w)) = default_executable
       \<and> exited (snd (module_metadata E paths w))
           = exited w @ [\<lparr>pid = next_pid w, stdin = ''-stay_open'' @ nl @ ''False'' @ nl,
                           stdout = []\<rparr>]
       \<and> (\<forall>w' bs chunks pw tws.
             \<not> running (heap w' (next_ref w))
             \<and> executable (heap w' (next_ref w)) = default_executable
             \<and> encode_params E (Text ''-r'' # paths) = Inr bs
             \<and> tool E [] (join nl ((''-j'' # bs) @ [''-execute'' @ nl])) = chunks
             \<and> [] \<notin> set chunks
             \<and> concat chunks = pw @ sentinel @ tws
             \<and> (\<forall>c\<in>set tws. is_space c) \<and> length tws \<le> 25
             \<and> \<not> sublist sentinel (pw @ butlast sentinel) \<longrightarrow>
             fst (mfm_iter E \<lparr>file_paths = paths, exif_tool = next_ref w\<rparr> w')
               = (case json_loads E (lstrip pw) of
                    Inl e \<Rightarrow> Raise e
                  | Inr rs \<Rightarrow> Return (map (\<lambda>r. FileMetadata_init r (next_ref w)) rs))
             \<and> \<not> running (heap (snd (mfm_iter E \<lparr>file_paths = paths, exif_tool = next_ref w\<rparr>
                    w')) (next_ref w))
             \<and> executable (heap (snd (mfm_iter E \<lparr>file_paths = paths, exif_tool = next_ref w\<rparr>
                    w')) (next_ref w)) = default_executable
             \<and> next_pid (snd (mfm_iter E \<lparr>file_paths = paths, exif_tool = next_ref w\<rparr> w'))
                 = Suc (next_pid w'))
       \<and> (\<forall>w' key bs chunks pw tws.
             \<not> running (heap w' (next_ref w))
             \<and> executable (heap w' (next_ref w)) = default_executable
             \<and> encode_params E (Text (''-'' @ key) # Text ''-r'' # paths) = Inr bs
             \<and> tool E [] (join nl ((''-j'' # bs) @ [''-execute'' @ nl])) = chunks
             \<and> [] \<notin> set chunks
             \<and> concat chunks = pw @ sentinel @ tws
             \<and> (\<forall>c\<in>set tws. is_space c) \<and> length tws \<le> 25
             \<and> \<not> sublist sentinel (pw @ butlast sentinel) \<longrightarrow>
             fst (mfm_getitem E \<lparr>file_paths = paths, exif_tool = next_ref w\<rparr> key w')
               = (case json_loads E (lstrip pw) of
                    Inl e \<Rightarrow> Raise e
                  | Inr rs \<Rightarrow> Return (map (\<lambda>r. dict_get r key PNone) rs))
             \<and> \<not> running (heap (snd (mfm_getitem E
                    \<lparr>file_paths = paths, exif_tool = next_ref w\<rparr> key w')) (next_ref w))
             \<and> executable (heap (snd (mfm_getitem E
                    \<lparr>file_paths = paths, exif_tool = next_ref w\<rparr> key w')) (next_ref w))
                 = default_executable
             \<and> next_pid (snd (mfm_getitem E
                    \<lparr>file_paths = paths, exif_tool = next_ref w\<rparr> key w'))
                 = Suc (next_pid w'))"
proof (intro conjI allI impI)
  note m = module_metadata_multi [OF multi ok, of w]
  show "fst (module_metadata E paths w)
      = Return (Multi \<lparr>file_paths = paths, exif_tool = next_ref w\<rparr>)"
    using m by simp
  show "\<not> running (heap (snd (module_metadata E paths w)) (next_ref w))"
    using m by simp
  show "executable (heap (snd (module_metadata E paths w)) (next_ref w)) = default_executable"
    using m by simp
  show "exited (snd (module_metadata E paths w))
      = exited w @ [\<lparr>pid = next_pid w, stdin = ''-stay_open'' @ nl @ ''False'' @ nl,
                      stdout = []\<rparr>]"
    using m by simp
next
  fix w' :: world and bs chunks pw tws
  let ?v = "\<lparr>file_paths = paths, exif_tool = next_ref w\<rparr>"
  assume h: "\<not> running (heap w' (next_ref w))
      \<and> executable (heap w' (next_ref w)) = default_executable
      \<and> encode_params E (Text ''-r'' # paths) = Inr bs
      \<and> tool E [] (join nl ((''-j'' # bs) @ [''-execute'' @ nl])) = chunks
      \<and> [] \<notin> set chunks
      \<and> concat chunks = pw @ sentinel @ tws
      \<and> (\<forall>c\<in>set tws. is_space c) \<and> length tws \<le> 25
      \<and> \<not> sublist sentinel (pw @ butlast sentinel)"
  have p: "fst (mfm_iter E ?v w')
        = (case json_loads E (lstrip pw) of
             Inl e \<Rightarrow> Raise e
           | Inr rs \<Rightarrow> Return (map (\<lambda>r. FileMetadata_init r (exif_tool ?v)) rs))
       \<and> \<not> running (heap (snd (mfm_iter E ?v w')) (exif_tool ?v))
       \<and> executable (heap (snd (mfm_iter E ?v w')) (exif_tool ?v))
           = executable (heap w' (exif_tool ?v))
       \<and> next_pid (snd (mfm_iter E ?v w')) = Suc (next_pid w')"
    by (rule private_iter [of w' ?v E bs chunks pw tws]) (use h ok in simp_all)
  from p show "fst (mfm_iter E ?v w')
      = (case json_loads E (lstrip pw) of
           Inl e \<Rightarrow> Raise e
         | Inr rs \<Rightarrow> Return (map (\<lambda>r. FileMetadata_init r (next_ref w)) rs))"
    by (simp cong: sum.case_cong)
  from p show "\<not> running (heap (snd (mfm_iter E ?v w')) (next_ref w))"
    by simp
  from p h show "executable (heap (snd (mfm_iter E ?v w')) (next_ref w)) = default_executable"
    by simp
  from p show "next_pid (snd (mfm_iter E ?v w')) = Suc (next_pid w')"
    by simp
next
  fix w' :: world and key bs chunks pw tws
  let ?v = "\<lparr>file_paths = paths, exif_tool = next_ref w\<rparr>"
  assume h: "\<not> running (heap w' (next_ref w))
      \<and> executable (heap w' (next_ref w)) = default_executable
      \<and> encode_params E (Text (''-'' @ key) # Text ''-r'' # paths) = Inr bs
      \<and> tool E [] (join nl ((''-j'' # bs) @ [''-execute'' @ nl])) = chunks
      \<and> [] \<notin> set chunks
      \<and> concat chunks = pw @ sentinel @ tws
      \<and> (\<forall>c\<in>set tws. is_space c) \<and> length tws \<le> 25
      \<and> \<not> sublist sentinel (pw @ butlast sentinel)"
  have p: "fst (mfm_getitem E ?v key w')
        = (case json_loads E (lstrip pw) of
             Inl e \<Rightarrow> Raise e
           | Inr rs \<Rightarrow> Return (map (\<lambda>r. dict_get r key PNone) rs))
       \<and> \<not> running (heap (snd (mfm_getitem E ?v key w')) (exif_tool ?v))
       \<and> executable (heap (snd (mfm_getitem E ?v key w')) (exif_tool ?v))
           = executable (heap w' (exif_tool ?v))
       \<and> next_pid (snd (mfm_getitem E ?v key w')) = Suc (next_pid w')"
    by (rule private_getitem [of w' ?v E key bs chunks pw tws]) (use h ok in simp_all)
  from p show "fst (mfm_getitem E ?v key w')
      = (case json_loads E (lstrip pw) of
           Inl e \<Rightarrow> Raise e
         | Inr rs \<Rightarrow> Return (map (\<lambda>r. dict_get r key PNone) rs))"
    by simp
  from p show "\<not> running (heap (snd (mfm_getitem E ?v key w')) (next_ref w))"
    by simp
  from p h show "executable (heap (snd (mfm_getitem E ?v key w')) (next_ref w))
      = default_executable"
    by simp
  from p show "next_pid (snd (mfm_getitem E ?v key w')) = Suc (next_pid w')"
    by simp
qed

theorem module_metadata_view_outlives_session_witness:
  "fst (module_metadata fake_env [Text ''a.jpg'', Text ''b.png''] world0)
     = Return (Multi \<lparr>file_paths = [Text ''a.jpg'', Text ''b.png''], exif_tool = 0\<rparr>)
   \<and> running (heap (snd (module_metadata fake_env [Text ''a.jpg'', Text ''b.png''] world0)) 0)
       = False
   \<and> exited (snd (module_metadata fake_env [Text ''a.jpg'', Text ''b.png''] world0))
       = [\<lparr>pid = 0, stdin = ''-stay_open'' @ nl @ ''False'' @ nl, stdout = []\<rparr>]
   \<and> fst (mfm_iter fake_env \<lparr>file_paths = [Text ''a.jpg'', Text ''b.png''], exif_tool = 0\<rparr>
         (snd (module_metadata fake_env [Text ''a.jpg'', Text ''b.png''] world0)))
       = Return [FileMetadata_init rec_a_full 0, FileMetadata_init rec_b_full 0]
   \<and> running (heap (snd (mfm_iter fake_env
         \<lparr>file_paths = [Text ''a.jpg'', Text ''b.png''], exif_tool = 0\<rparr>
         (snd (module_metadata fake_env [Text ''a.jpg'', Text ''b.png''] world0)))) 0) = False
   \<and> fst (mfm_getitem fake_env \<lparr>file_paths = [Text ''a.jpg'', Text ''b.png''], exif_tool = 0\<rparr>
         ''EXIF:Make''
         (snd (mfm_iter fake_env \<lparr>file_paths = [Text ''a.jpg'', Text ''b.png''], exif_tool = 0\<rparr>
            (snd (module_metadata fake_env [Text ''a.jpg'', Text ''b.png''] world0)))))
       = Return [PStr ''Canon'', PNone]"
proof -
  let ?paths = "[Text ''a.jpg'', Text ''b.png'']"
  let ?v = "\<lparr>file_paths = ?paths, exif_tool = 0\<rparr>"
  define w1 where "w1 = snd (module_metadata fake_env ?paths world0)"
  define w2 where "w2 = snd (mfm_iter fake_env ?v w1)"
  have m: "\<not> (length ?paths = 1 \<and> isfile fake_env (?paths ! 0))" by simp
  have ok: "popen_ok fake_env default_executable"
    by (simp add: fake_env_def default_executable_def)
  have z: "next_ref world0 = 0" "next_pid world0 = 0" "exited world0 = []"
    by (simp_all add: world0_def)
  note T = module_metadata_view_outlives_session [of ?paths fake_env world0, OF m ok,
      unfolded z, folded w1_def]
  from T have c1: "fst (module_metadata fake_env ?paths world0) = Return (Multi ?v)"
    by (rule conjunct1)
  from T have c2: "\<not> running (heap w1 0)" by blast
  from T have c3: "executable (heap w1 0) = default_executable" by blast
  from T have c4: "exited w1
      = [] @ [\<lparr>pid = 0, stdin = ''-stay_open'' @ nl @ ''False'' @ nl, stdout = []\<rparr>]"
    by blast
  note T5 = T [THEN conjunct2, THEN conjunct2, THEN conjunct2, THEN conjunct2, THEN conjunct1,
      rule_format]
  note T6 = T [THEN conjunct2, THEN conjunct2, THEN conjunct2, THEN conjunct2, THEN conjunct2,
      rule_format]
  have tl_full: "tool fake_env []
      (join nl ((''-j'' # [''-r'', ''a.jpg'', ''b.png'']) @ [''-execute'' @ nl]))
      = [json_ab @ nl @ sentinel @ nl]"
    using fake_tool_full [of "[]"] by (simp add: fake_env_def)
  have tl_make: "tool fake_env []
      (join nl ((''-j'' # [''-EXIF:Make'', ''-r'', ''a.jpg'', ''b.png''])
         @ [''-execute'' @ nl]))
      = [json_ab_make @ nl, sentinel @ nl]"
    using fake_tool_make [of "[]"] by (simp add: fake_env_def)
  have ne_full: "[] \<notin> set [json_ab @ nl @ sentinel @ nl]" by (simp add: sentinel_def)
  have ne_make: "[] \<notin> set [json_ab_make @ nl, sentinel @ nl]"
    by (simp add: sentinel_def nl_def)
  have cat_full: "concat [json_ab @ nl @ sentinel @ nl] = (json_ab @ nl) @ sentinel @ nl"
    by simp
  have cat_make: "concat [json_ab_make @ nl, sentinel @ nl]
      = (json_ab_make @ nl) @ sentinel @ nl"
    by simp
  have short: "length nl \<le> 25" by (simp add: nl_def)
  have js_full: "json_loads fake_env (lstrip (json_ab @ nl)) = Inr [rec_a_full, rec_b_full]"
    using fake_loads_full by (simp add: fake_env_def)
  have js_make: "json_loads fake_env (lstrip (json_ab_make @ nl)) = Inr [rec_a, rec_b]"
    using fake_loads_make by (simp add: fake_env_def)
  have i: "fst (mfm_iter fake_env ?v w1)
        = (case json_loads fake_env (lstrip (json_ab @ nl)) of
             Inl e \<Rightarrow> Raise e
           | Inr rs \<Rightarrow> Return (map (\<lambda>r. FileMetadata_init r 0) rs))
      \<and> \<not> running (heap (snd (mfm_iter fake_env ?v w1)) 0)
      \<and> executable (heap (snd (mfm_iter fake_env ?v w1)) 0) = default_executable
      \<and> next_pid (snd (mfm_iter fake_env ?v w1)) = Suc (next_pid w1)"
    by (rule T5 [of w1 "[''-r'', ''a.jpg'', ''b.png'']" "[json_ab @ nl @ sentinel @ nl]"
          "json_ab @ nl" nl])
       (intro conjI; rule c2 c3 fake_encode_full tl_full ne_full cat_full nl_space short
          fake_first_full)
  then have d2: "\<not> running (heap w2 0)" and d3: "executable (heap w2 0) = default_executable"
    by (simp_all add: w2_def)
  have g: "fst (mfm_getitem fake_env ?v ''EXIF:Make'' w2)
        = (case json_loads fake_env (lstrip (json_ab_make @ nl)) of
             Inl e \<Rightarrow> Raise e
           | Inr rs \<Rightarrow> Return (map (\<lambda>r. dict_get r ''EXIF:Make'' PNone) rs))
      \<and> \<not> running (heap (snd (mfm_getitem fake_env ?v ''EXIF:Make'' w2)) 0)
      \<and> executable (heap (snd (mfm_getitem fake_env ?v ''EXIF:Make'' w2)) 0)
          = default_executable
      \<and> next_pid (snd (mfm_getitem fake_env ?v ''EXIF:Make'' w2)) = Suc (next_pid w2)"
    by (rule T6 [of w2 "''EXIF:Make''" "[''-EXIF:Make'', ''-r'', ''a.jpg'', ''b.png'']"
          "[json_ab_make @ nl, sentinel @ nl]" "json_ab_make @ nl" nl])
       (intro conjI; rule d2 d3 fake_encode_make tl_make ne_make cat_make nl_space short
          fake_first_make)
  from c1 c2 c4 i g show ?thesis
    unfolding w2_def w1_def js_full js_make
    by (simp add: dict_get_def rec_a_def rec_b_def)
qed

text \<open>
  The claim as stated fails for the view of zero paths: the tool, given no file, answers
  the batch with the sentinel alone, the empty payload does not decode, and the later
  iteration raises the decoder's error.
\<close>

theorem later_iteration_fails_counterexample:
  "fst (module_metadata fake_env [] world0)
     = Return (Multi \<lparr>file_paths = [], exif_tool = 0\<rparr>)
   \<and> running (heap (snd (module_metadata fake_env [] world0)) 0) = False
   \<and> tool fake_env [] (''-j'' @ nl @ ''-r'' @ nl @ ''-execute'' @ nl) = [sentinel @ nl]
   \<and> fst (mfm_iter fake_env \<lparr>file_paths = [], exif_tool = 0\<rparr>
         (snd (module_metadata fake_env [] world0)))
       = Raise JSONDecodeError"
proof -
  let ?v = "\<lparr>file_paths = [], exif_tool = 0\<rparr>"
  define w1 where "w1 = snd (module_metadata fake_env [] world0)"
  have ok: "popen_ok fake_env default_executable"
    by (simp add: fake_env_def default_executable_def)
  have z: "next_ref world0 = 0" by (simp add: world0_def)
  have m: "\<not> (length ([]::token list) = 1 \<and> isfile fake_env ([] ! 0))" by simp
  note M = module_metadata_multi [OF m ok, of world0, unfolded z, folded w1_def]
  from M have off: "\<not> running (heap w1 (exif_tool ?v))"
    and ok1: "popen_ok fake_env (executable (heap w1 (exif_tool ?v)))"
    using ok by simp_all
  have enc: "encode_params fake_env (Text ''-r'' # file_paths ?v) = Inr [''-r'']"
    by (simp add: fake_env_def ascii_encode_def)
  have tl: "tool fake_env [] (join nl ((''-j'' # [''-r'']) @ [''-execute'' @ nl]))
      = [sentinel @ nl]"
    using fake_tool_none [of "[]"] by (simp add: fake_env_def)
  have ne: "[] \<notin> set [sentinel @ nl]" by (simp add: sentinel_def)
  have cat: "concat [sentinel @ nl] = [] @ sentinel @ nl" by simp
  have short: "length nl \<le> 25" by (simp add: nl_def)
  have first: "\<not> sublist sentinel ([] @ butlast sentinel)"
    by (simp add: sentinel_def sublist_Cons_right)
  have js: "json_loads fake_env (lstrip []) = Inl JSONDecodeError"
    using fake_loads_none by (simp add: fake_env_def)
  from private_iter [OF off ok1 enc tl ne cat nl_space short first]
  have "fst (mfm_iter fake_env ?v w1) = Raise JSONDecodeError"
    unfolding js by simp
  with M tl show ?thesis
    by (simp add: w1_def)
qed

subsection \<open>Field projection\<close>




end
